theory Spec2Isabelle
  imports Main "HOL-Library.Sublist" "HOL-Library.AList"
begin

section \<open>Text\<close>

text \<open>
  The tools of the pattern selector work on Python \<open>str\<close> values. A text is modelled as a
  \<^typ>\<open>string\<close> whose characters are the code points below 256; on these the functions
  below are Python's \<open>str.lower\<close>, \<open>str.isspace\<close>, \<open>str.strip\<close>, \<open>str.replace\<close> (for a
  single character), \<open>str.split\<close> and the substring test \<open>kw in text\<close>. The substring
  test is \<^const>\<open>sublist\<close>: \<open>sublist kw text\<close> holds when \<open>text = ps @ kw @ ss\<close>.
\<close>

definition is_upper :: "char \<Rightarrow> bool" where
  "is_upper c =
     (let n = (of_char c :: nat)
      in (65 \<le> n \<and> n \<le> 90) \<or> (192 \<le> n \<and> n \<le> 222 \<and> n \<noteq> 215))"

definition lower_char :: "char \<Rightarrow> char" where
  "lower_char c = (if is_upper c then char_of ((of_char c :: nat) + 32) else c)"

definition lower :: "string \<Rightarrow> string" where
  "lower s = map lower_char s"

definition is_space :: "char \<Rightarrow> bool" where
  "is_space c =
     (let n = (of_char c :: nat)
      in (9 \<le> n \<and> n \<le> 13) \<or> (28 \<le> n \<and> n \<le> 32) \<or> n = 133 \<or> n = 160)"

definition strip :: "string \<Rightarrow> string" where
  "strip s = rev (dropWhile is_space (rev (dropWhile is_space s)))"

definition replace_char :: "char \<Rightarrow> char \<Rightarrow> string \<Rightarrow> string" where
  "replace_char a b s = map (\<lambda>c. if c = a then b else c) s"

text \<open>\<open>split_on sep s\<close> is \<open>s.split(sep)\<close> for a one-character separator: it always
  yields at least one field.\<close>

fun split_on :: "char \<Rightarrow> string \<Rightarrow> string list" where
  "split_on sep [] = [[]]"
| "split_on sep (c # cs) =
     (if c = sep then [] # split_on sep cs
      else (case split_on sep cs of
              f # fs \<Rightarrow> (c # f) # fs
            | [] \<Rightarrow> [[c]]))"

section \<open>Decision tools: the tables\<close>

text \<open>The dictionaries of \<open>tools/decision.py\<close>, as association lists in the order of the
  source (a Python \<open>dict\<close> iterates in insertion order).\<close>

definition PATTERN_CAPABILITIES :: "(string \<times> (string \<times> nat) list) list" where
  "PATTERN_CAPABILITIES =
 [
  (''subagents'',
     [(''parallel_execution'', 5),
      (''context_isolation'', 4),
      (''distributed_development'', 5),
      (''direct_user_interaction'', 1),
      (''coordination_complexity'', 3),
      (''large_data_handling'', 2),
      (''workflow_stages'', 2)]),
  (''deep-agents'',
     [(''parallel_execution'', 3),
      (''context_isolation'', 5),
      (''distributed_development'', 4),
      (''direct_user_interaction'', 2),
      (''coordination_complexity'', 3),
      (''large_data_handling'', 5),
      (''workflow_stages'', 2)]),
  (''supervisor-forward'',
     [(''parallel_execution'', 3),
      (''context_isolation'', 3),
      (''distributed_development'', 4),
      (''direct_user_interaction'', 3),
      (''coordination_complexity'', 3),
      (''large_data_handling'', 2),
      (''workflow_stages'', 2),
      (''audit_compliance'', 5),
      (''response_accuracy'', 5)]),
  (''hierarchical-teams'',
     [(''parallel_execution'', 4),
      (''context_isolation'', 4),
      (''distributed_development'', 5),
      (''direct_user_interaction'', 2),
      (''coordination_complexity'', 5),
      (''large_data_handling'', 3),
      (''workflow_stages'', 3),
      (''organizational_modeling'', 5)]),
  (''context-quarantine'',
     [(''parallel_execution'', 3),
      (''context_isolation'', 5),
      (''distributed_development'', 3),
      (''direct_user_interaction'', 2),
      (''coordination_complexity'', 3),
      (''large_data_handling'', 5),
      (''workflow_stages'', 2)]),
  (''skills'',
     [(''parallel_execution'', 1),
      (''context_isolation'', 1),
      (''distributed_development'', 5),
      (''direct_user_interaction'', 4),
      (''coordination_complexity'', 1),
      (''large_data_handling'', 2),
      (''workflow_stages'', 1),
      (''lightweight_composition'', 5),
      (''runtime_adaptability'', 5)]),
  (''handoffs'',
     [(''parallel_execution'', 1),
      (''context_isolation'', 2),
      (''distributed_development'', 4),
      (''direct_user_interaction'', 5),
      (''coordination_complexity'', 2),
      (''large_data_handling'', 2),
      (''workflow_stages'', 5),
      (''state_persistence'', 5)]),
  (''router'',
     [(''parallel_execution'', 5),
      (''context_isolation'', 3),
      (''distributed_development'', 4),
      (''direct_user_interaction'', 2),
      (''coordination_complexity'', 2),
      (''large_data_handling'', 3),
      (''workflow_stages'', 1),
      (''query_classification'', 5),
      (''result_synthesis'', 5)]),
  (''custom-workflows'',
     [(''parallel_execution'', 4),
      (''context_isolation'', 3),
      (''distributed_development'', 3),
      (''direct_user_interaction'', 3),
      (''coordination_complexity'', 4),
      (''large_data_handling'', 3),
      (''workflow_stages'', 5),
      (''flexibility'', 5),
      (''feedback_loops'', 5)])
 ]"

definition REQUIREMENT_MAPPINGS :: "(string \<times> string) list" where
  "REQUIREMENT_MAPPINGS =
 [
  (''parallel'', ''parallel_execution''),
  (''concurrent'', ''parallel_execution''),
  (''simultaneously'', ''parallel_execution''),
  (''at the same time'', ''parallel_execution''),
  (''context isolation'', ''context_isolation''),
  (''isolated context'', ''context_isolation''),
  (''separate context'', ''context_isolation''),
  (''context bloat'', ''large_data_handling''),
  (''large data'', ''large_data_handling''),
  (''big data'', ''large_data_handling''),
  (''large outputs'', ''large_data_handling''),
  (''huge results'', ''large_data_handling''),
  (''talk to user'', ''direct_user_interaction''),
  (''user interaction'', ''direct_user_interaction''),
  (''talk directly'', ''direct_user_interaction''),
  (''customer facing'', ''direct_user_interaction''),
  (''user-facing'', ''direct_user_interaction''),
  (''stages'', ''workflow_stages''),
  (''steps'', ''workflow_stages''),
  (''phases'', ''workflow_stages''),
  (''sequential'', ''workflow_stages''),
  (''state machine'', ''workflow_stages''),
  (''workflow'', ''workflow_stages''),
  (''teams'', ''organizational_modeling''),
  (''departments'', ''organizational_modeling''),
  (''hierarchy'', ''organizational_modeling''),
  (''organization'', ''organizational_modeling''),
  (''independent development'', ''distributed_development''),
  (''separate teams'', ''distributed_development''),
  (''modular'', ''distributed_development''),
  (''compliance'', ''audit_compliance''),
  (''audit'', ''audit_compliance''),
  (''exact wording'', ''response_accuracy''),
  (''verbatim'', ''response_accuracy''),
  (''liability'', ''audit_compliance''),
  (''custom'', ''flexibility''),
  (''flexible'', ''flexibility''),
  (''feedback loop'', ''feedback_loops''),
  (''revision'', ''feedback_loops''),
  (''review cycle'', ''feedback_loops''),
  (''lightweight'', ''lightweight_composition''),
  (''simple'', ''lightweight_composition''),
  (''single agent'', ''lightweight_composition''),
  (''classify'', ''query_classification''),
  (''route'', ''query_classification''),
  (''dispatch'', ''query_classification''),
  (''multiple sources'', ''result_synthesis''),
  (''combine results'', ''result_synthesis''),
  (''synthesize'', ''result_synthesis'')
 ]"

definition indicators :: "(string \<times> string list) list" where
  "indicators =
 [
  (''subagents'',
     [''coordinate'', ''coordinator'', ''supervisor'', ''domain expert'', ''specialist'', ''different domains'', ''finance'', ''budget'', ''investment'', ''tax'', ''multi-service'']),
  (''deep-agents'',
     [''research'', ''search many'', ''large outputs'', ''summarize'', ''context management'', ''data intensive'', ''many tool calls'', ''long conversation'']),
  (''supervisor-forward'',
     [''legal'', ''medical'', ''compliance'', ''exact response'', ''verbatim'', ''liability'', ''audit'', ''attribution'', ''regulated'', ''financial advice'']),
  (''hierarchical-teams'',
     [''team'', ''department'', ''hierarchy'', ''organization'', ''team lead'', ''nested'', ''large scale'', ''enterprise'']),
  (''context-quarantine'',
     [''large data'', ''database'', ''big results'', ''summarize raw'', ''token limit'', ''context limit'', ''huge output'', ''10000'', ''100k'']),
  (''skills'',
     [''coding'', ''programming language'', ''python'', ''javascript'', ''code assistant'', ''writing assistant'', ''multiple skills'', ''prompt-based'', ''guidelines'', ''best practices'']),
  (''handoffs'',
     [''customer support'', ''stages'', ''steps'', ''greeting'', ''collect'', ''resolve'', ''state machine'', ''workflow'', ''sequential'', ''talk to user'', ''conversation flow'']),
  (''router'',
     [''search'', ''query'', ''classify'', ''dispatch'', ''parallel'', ''multiple sources'', ''knowledge base'', ''faq'', ''docs'', ''tutorials'', ''combine results'']),
  (''custom-workflows'',
     [''content pipeline'', ''review'', ''revision'', ''feedback loop'', ''approval'', ''quality gate'', ''custom flow'', ''conditional'', ''branch'', ''loop back''])
 ]"

section \<open>Requirement scorer\<close>

text \<open>
  \<open>evaluate_requirements\<close> collects the detected capabilities in a Python \<open>set\<close>. The model
  keeps them in a list without repetitions; the order in which a Python set is iterated
  is not fixed by the language, and nothing proved below depends on the order of this list.
\<close>

definition detect_capabilities :: "string \<Rightarrow> string list" where
  "detect_capabilities requirements_lower =
     remdups (map snd (filter (\<lambda>(keyword, capability). sublist keyword requirements_lower)
                         REQUIREMENT_MAPPINGS))"

record fit =
  score :: nat
  max_possible :: nat
  matched :: "(string \<times> nat) list"

text \<open>The inner loop \<open>for cap in detected_capabilities\<close>; an entry \<open>(cap, v)\<close> of
  \<open>matched\<close> stands for the text \<open>cap: v/5\<close>.\<close>

fun score_caps ::
  "(string \<times> nat) list \<Rightarrow> string list \<Rightarrow> nat \<Rightarrow> (string \<times> nat) list
    \<Rightarrow> nat \<times> (string \<times> nat) list" where
  "score_caps capabilities [] sc ms = (sc, ms)"
| "score_caps capabilities (cap # rest) sc ms =
     (case map_of capabilities cap of
        Some v \<Rightarrow> score_caps capabilities rest (sc + v) (ms @ [(cap, v)])
      | None \<Rightarrow> score_caps capabilities rest sc ms)"

definition score_pattern :: "string list \<Rightarrow> (string \<times> nat) list \<Rightarrow> fit" where
  "score_pattern detected capabilities =
     (case score_caps capabilities detected 0 [] of
        (sc, ms) \<Rightarrow> \<lparr>score = sc, max_possible = length detected * 5, matched = ms\<rparr>)"

text \<open>What one detected capability adds to the score of a pattern: its rating in the
  pattern's row, nothing when the row does not rate it.\<close>

definition cap_value :: "(string \<times> nat) list \<Rightarrow> string \<Rightarrow> nat" where
  "cap_value capabilities cap = (case map_of capabilities cap of Some v \<Rightarrow> v | None \<Rightarrow> 0)"

definition scores :: "string list \<Rightarrow> (string \<times> fit) list" where
  "scores detected =
     map (\<lambda>(pattern_name, capabilities). (pattern_name, score_pattern detected capabilities))
       PATTERN_CAPABILITIES"

text \<open>\<open>sorted(xs, key=k, reverse=True)\<close>: Python reverses the list, sorts it stably in
  ascending order of the key and reverses the result, so that equal keys keep their
  original order.\<close>

definition sorted_reverse :: "('a \<Rightarrow> nat) \<Rightarrow> 'a list \<Rightarrow> 'a list" where
  "sorted_reverse k xs = rev (sort_key k (rev xs))"

record requirement_report =
  capabilities_needed :: "string list"
  fit_scores :: "(string \<times> fit) list"
  top_recommendation :: string
  alternative :: "string option"

text \<open>The tool returns text. The model returns what the text is rendered from: either the
  message \<open>Could not detect specific requirements ...\<close>, or the report headed
  \<open>Requirement Analysis\<close>; \<open>sorted_patterns[0]\<close> raises \<open>IndexError\<close> on an empty list.\<close>

datatype requirement_result =
    Could_not_detect
  | Requirement_analysis requirement_report
  | Requirement_index_error

definition sorted_patterns :: "string list \<Rightarrow> (string \<times> fit) list" where
  "sorted_patterns detected = sorted_reverse (\<lambda>x. score (snd x)) (scores detected)"

definition evaluate_requirements :: "string \<Rightarrow> requirement_result" where
  "evaluate_requirements requirements =
     (let requirements_lower = lower requirements;
          detected_capabilities = detect_capabilities requirements_lower
      in if detected_capabilities = [] then Could_not_detect
         else (case sorted_patterns detected_capabilities of
                 [] \<Rightarrow> Requirement_index_error
               | best # others \<Rightarrow>
                   Requirement_analysis
                     \<lparr>capabilities_needed = detected_capabilities,
                      fit_scores = take 5 (best # others),
                      top_recommendation = fst best,
                      alternative =
                        (case others of
                           second # _ \<Rightarrow> if score (snd second) > 0 then Some (fst second) else None
                         | [] \<Rightarrow> None)\<rparr>))"

section \<open>Use-case classifier\<close>

record use_case_match =
  pattern :: string
  keyword_matches :: nat
  matched_shown :: "string list"

record use_case_report =
  input_shown :: string
  pattern_matches :: "use_case_match list"
  suggested_starting_point :: string
  also_consider :: "string option"

text \<open>Either the message \<open>Could not identify a clear pattern match ...\<close> or the report
  headed \<open>Use Case Analysis\<close>. \<open>matches\<close> is the dictionary built by the first loop, in
  the order of \<open>indicators\<close>.\<close>

datatype use_case_result =
    Could_not_identify
  | Use_case_analysis use_case_report
  | Use_case_index_error

definition matches :: "string \<Rightarrow> (string \<times> nat) list" where
  "matches use_case_lower =
     filter (\<lambda>(p, n). n > 0)
       (map (\<lambda>(p, keywords). (p, length (filter (\<lambda>kw. sublist kw use_case_lower) keywords)))
          indicators)"

text \<open>One entry of the report: \<open>indicators[pattern]\<close> is looked up again for the matched
  keywords, of which the first five are shown. The pattern is a key of \<open>matches\<close>, hence
  of \<open>indicators\<close>.\<close>

definition match_entry :: "string \<Rightarrow> string \<times> nat \<Rightarrow> use_case_match" where
  "match_entry use_case_lower pc =
     (let matched_keywords =
            filter (\<lambda>kw. sublist kw use_case_lower)
              (case map_of indicators (fst pc) of Some keywords \<Rightarrow> keywords | None \<Rightarrow> [])
      in \<lparr>pattern = fst pc, keyword_matches = snd pc, matched_shown = take 5 matched_keywords\<rparr>)"

definition analyze_use_case :: "string \<Rightarrow> use_case_result" where
  "analyze_use_case use_case =
     (let use_case_lower = lower use_case;
          ms = matches use_case_lower
      in if ms = [] then Could_not_identify
         else (case sorted_reverse snd ms of
                 [] \<Rightarrow> Use_case_index_error
               | best # others \<Rightarrow>
                   Use_case_analysis
                     \<lparr>input_shown =
                        take 100 use_case @ (if length use_case > 100 then ''...'' else []),
                      pattern_matches = map (match_entry use_case_lower) (best # others),
                      suggested_starting_point = fst best,
                      also_consider =
                        (case others of alt # _ \<Rightarrow> Some (fst alt) | [] \<Rightarrow> None)\<rparr>))"

section \<open>Clarifying-question generator\<close>

record question =
  aspect :: string
  question_text :: string
  why :: string

definition execution_model :: question where
  "execution_model =
     \<lparr>aspect = ''Execution Model'',
      question_text = ''Do you need tasks to run in parallel (simultaneously), or sequentially (one after another)?'',
      why = ''Parallel -> Router, Subagents | Sequential -> Handoffs, Custom Workflows''\<rparr>"

definition user_interaction :: question where
  "user_interaction =
     \<lparr>aspect = ''User Interaction'',
      question_text = ''Do specialists need to talk directly to users, or should a coordinator handle all user interaction?'',
      why = ''Direct interaction -> Handoffs | Coordinator handles -> Subagents''\<rparr>"

definition data_volume :: question where
  "data_volume =
     \<lparr>aspect = ''Data Volume'',
      question_text = ''Will your tools produce large outputs (thousands of lines, big JSON responses)?'',
      why = ''Large outputs -> Deep Agents or Context Quarantine''\<rparr>"

definition workflow_structure :: question where
  "workflow_structure =
     \<lparr>aspect = ''Workflow Structure'',
      question_text = ''Does your process have clear stages/phases (e.g., intake -> process -> resolve)?'',
      why = ''Clear stages -> Handoffs | Ad-hoc coordination -> Subagents''\<rparr>"

definition agent_count :: question where
  "agent_count =
     \<lparr>aspect = ''Agent Count'',
      question_text = ''Do you envision a single agent with multiple capabilities, or multiple specialized agents?'',
      why = ''Single agent -> Skills | Multiple agents -> Subagents, Handoffs, etc.''\<rparr>"

definition response_handling :: question where
  "response_handling =
     \<lparr>aspect = ''Response Handling'',
      question_text = ''Do responses need to be forwarded exactly as specialists produce them (for compliance/audit)?'',
      why = ''Exact forwarding needed -> Supervisor Forward''\<rparr>"

text \<open>\<open>any(kw in problem_lower for kw in kws)\<close>.\<close>

definition any_in :: "string list \<Rightarrow> string \<Rightarrow> bool" where
  "any_in kws problem_lower = list_ex (\<lambda>kw. sublist kw problem_lower) kws"

text \<open>The six \<open>if\<close> statements that append to \<open>questions\<close>, in the order of the source.\<close>

definition questions :: "string \<Rightarrow> question list" where
  "questions problem_lower =
     (if \<not> sublist ''parallel'' problem_lower \<and> \<not> sublist ''sequential'' problem_lower
      then [execution_model] else []) @
     (if \<not> sublist ''user'' problem_lower \<and> \<not> sublist ''customer'' problem_lower
      then [user_interaction] else []) @
     (if \<not> any_in [''large'', ''big'', ''huge'', ''context'', ''token''] problem_lower
      then [data_volume] else []) @
     (if \<not> any_in [''stage'', ''step'', ''phase'', ''workflow'', ''state''] problem_lower
      then [workflow_structure] else []) @
     (if \<not> any_in [''single'', ''one'', ''multiple'', ''many'', ''several''] problem_lower
      then [agent_count] else []) @
     (if \<not> any_in [''compliance'', ''audit'', ''legal'', ''exact'', ''verbatim''] problem_lower
      then [response_handling] else [])"

text \<open>Either the message \<open>Your problem description is quite detailed ...\<close> or the list
  headed \<open>Clarifying Questions\<close>, which renders \<open>questions[:4]\<close>.\<close>

datatype clarifying_result =
    Quite_detailed
  | Clarifying_questions "question list"

definition get_clarifying_questions :: "string \<Rightarrow> clarifying_result" where
  "get_clarifying_questions problem_description =
     (let problem_lower = lower problem_description;
          qs = questions problem_lower
      in if qs = [] then Quite_detailed else Clarifying_questions (take 4 qs))"

text \<open>The six axes as a table, marker words and question, for stating properties of
  \<^const>\<open>questions\<close>.\<close>

definition axes :: "(string list \<times> question) list" where
  "axes =
     [([''parallel'', ''sequential''], execution_model),
      ([''user'', ''customer''], user_interaction),
      ([''large'', ''big'', ''huge'', ''context'', ''token''], data_volume),
      ([''stage'', ''step'', ''phase'', ''workflow'', ''state''], workflow_structure),
      ([''single'', ''one'', ''multiple'', ''many'', ''several''], agent_count),
      ([''compliance'', ''audit'', ''legal'', ''exact'', ''verbatim''], response_handling)]"

definition unaddressed :: "string \<Rightarrow> string list \<times> question \<Rightarrow> bool" where
  "unaddressed problem_lower axis = (\<not> any_in (fst axis) problem_lower)"

section \<open>Knowledge store: pattern documents\<close>

text \<open>Exceptions of the Python code that the model keeps as values: a failed
  \<open>read_text\<close> and a failed dictionary lookup.\<close>

datatype py_error = OSError | KeyError

record pattern_metadata =
  name :: string
  title :: string
  description :: string
  category :: string
  complexity :: string

record parsed_pattern = pattern_metadata +
  body :: string

record pattern_info = pattern_metadata +
  path :: string

subsection \<open>The frontmatter pattern\<close>

text \<open>
  \<open>re.match(r'^---\s*\n(.*?)\n---\s*\n(.*)$', content, re.DOTALL)\<close>, as the backtracking
  matcher runs it. \<open>\s\<close> is \<^const>\<open>is_space\<close>, which includes the newline.

  \<open>ws_nl s\<close> lists the remainders of \<open>s\<close> after a match of \<open>\s*\n\<close> at its start, in the order
  in which the greedy \<open>\s*\<close> offers them: the longest run of white space first.
\<close>

definition NL :: char where
  "NL = CHR 0x0A"

fun ws_nl :: "string \<Rightarrow> string list" where
  "ws_nl [] = []"
| "ws_nl (c # cs) = (if is_space c then ws_nl cs else []) @ (if c = NL then [cs] else [])"

text \<open>\<open>\n---\s*\n(.*)$\<close> at the start of \<open>s\<close>: with \<open>re.DOTALL\<close> the greedy \<open>(.*)\<close> takes
  all that is left, where \<open>$\<close> matches, so the first remainder offered by \<open>\s*\n\<close> is group
  2.\<close>

definition closing :: "string \<Rightarrow> string option" where
  "closing s =
     (if prefix (NL # ''---'') s
      then (case ws_nl (drop 4 s) of rest # _ \<Rightarrow> Some rest | [] \<Rightarrow> None)
      else None)"

text \<open>The lazy \<open>(.*?)\<close>: group 1 is \<open>acc\<close> extended by the shortest prefix of \<open>s\<close> after
  which the closing delimiter matches.\<close>

fun lazy_group :: "string \<Rightarrow> string \<Rightarrow> (string \<times> string) option" where
  "lazy_group acc [] = None"
| "lazy_group acc (c # cs) =
     (case closing (c # cs) of
        Some rest \<Rightarrow> Some (acc, rest)
      | None \<Rightarrow> lazy_group (acc @ [c]) cs)"

fun first_match :: "('a \<Rightarrow> 'b option) \<Rightarrow> 'a list \<Rightarrow> 'b option" where
  "first_match f [] = None"
| "first_match f (x # xs) = (case f x of Some r \<Rightarrow> Some r | None \<Rightarrow> first_match f xs)"

text \<open>The groups \<open>(match.group(1), match.group(2))\<close>, or \<open>None\<close> when there is no match.\<close>

definition frontmatter_match :: "string \<Rightarrow> (string \<times> string) option" where
  "frontmatter_match content =
     (if prefix ''---'' content then first_match (lazy_group []) (ws_nl (drop 3 content))
      else None)"

text \<open>The language of the pattern, stated without the matcher: three dashes, white space
  up to a newline, any text, a newline, three dashes, white space up to a newline, any
  text.\<close>

definition has_frontmatter :: "string \<Rightarrow> bool" where
  "has_frontmatter content \<longleftrightarrow>
     (\<exists>w1 fm w2 rest.
        content = ''---'' @ w1 @ [NL] @ fm @ [NL] @ ''---'' @ w2 @ [NL] @ rest \<and>
        list_all is_space w1 \<and> list_all is_space w2)"

subsection \<open>Parsing a document\<close>

text \<open>The loop over \<open>frontmatter_text.split('\n')\<close>: \<open>line.split(':', 1)\<close> cuts a line at its
  first colon.\<close>

fun parse_lines :: "string list \<Rightarrow> (string \<rightharpoonup> string) \<Rightarrow> (string \<rightharpoonup> string)" where
  "parse_lines [] metadata = metadata"
| "parse_lines (line # rest) metadata =
     (if CHR '':'' \<in> set line
      then (let key = takeWhile (\<lambda>c. c \<noteq> CHR '':'') line;
                val = drop 1 (dropWhile (\<lambda>c. c \<noteq> CHR '':'') line)
            in parse_lines rest (metadata(strip key \<mapsto> strip val)))
      else parse_lines rest metadata)"

text \<open>\<open>metadata.get(key, default)\<close>.\<close>

definition get_default :: "(string \<rightharpoonup> string) \<Rightarrow> string \<Rightarrow> string \<Rightarrow> string" where
  "get_default metadata key dflt = (case metadata key of Some v \<Rightarrow> v | None \<Rightarrow> dflt)"

definition placeholder :: "string \<Rightarrow> parsed_pattern" where
  "placeholder content =
     \<lparr>name = ''unknown'', title = ''Unknown Pattern'', description = ''No description'',
      category = ''unknown'', complexity = ''unknown'', body = content\<rparr>"

definition parse_pattern_frontmatter :: "string \<Rightarrow> parsed_pattern" where
  "parse_pattern_frontmatter content =
     (case frontmatter_match content of
        None \<Rightarrow> placeholder content
      | Some (frontmatter_text, body_text) \<Rightarrow>
          (let metadata = parse_lines (split_on NL frontmatter_text) Map.empty
           in \<lparr>name = get_default metadata ''name'' ''unknown'',
               title = get_default metadata ''title'' ''Unknown Pattern'',
               description = get_default metadata ''description'' ''No description'',
               category = get_default metadata ''category'' ''unknown'',
               complexity = get_default metadata ''complexity'' ''unknown'',
               body = strip body_text\<rparr>))"

subsection \<open>Discovery\<close>

text \<open>
  What the tools see of the file system: whether the knowledge directory exists, the
  paths that \<open>glob("*.md")\<close> yields in its order, and \<open>read_text\<close>, which is \<open>None\<close> where
  Python raises \<open>OSError\<close>.
\<close>

record filesystem =
  dir_exists :: bool
  glob_md :: "string list"
  read_text :: "string \<Rightarrow> string option"

type_synonym patterns = "(string \<times> pattern_info) list"

text \<open>The dictionary \<open>patterns\<close> keeps insertion order; \<open>patterns[pattern_name] = ...\<close>
  replaces the value of a key that is present and appends otherwise, which is
  \<^const>\<open>AList.update\<close>.\<close>

text \<open>The entry stored for one document: its parsed metadata and its path.\<close>

definition pattern_entry :: "string \<Rightarrow> parsed_pattern \<Rightarrow> pattern_info" where
  "pattern_entry pattern_file parsed =
     \<lparr>name = name parsed, title = title parsed, description = description parsed,
      category = category parsed, complexity = complexity parsed, path = pattern_file\<rparr>"

fun discover_loop :: "filesystem \<Rightarrow> string list \<Rightarrow> patterns \<Rightarrow> py_error + patterns" where
  "discover_loop fs [] ps = Inr ps"
| "discover_loop fs (pattern_file # rest) ps =
     (case read_text fs pattern_file of
        None \<Rightarrow> Inl OSError
      | Some content \<Rightarrow>
          (let parsed = parse_pattern_frontmatter content
           in discover_loop fs rest
                (AList.update (name parsed) (pattern_entry pattern_file parsed) ps)))"

definition discover_patterns :: "filesystem \<Rightarrow> py_error + patterns" where
  "discover_patterns fs = (if \<not> dir_exists fs then Inr [] else discover_loop fs (glob_md fs) [])"

section \<open>Session load tracker of the pattern selector\<close>

text \<open>The module-level state of \<open>tools/patterns.py\<close>: \<open>_patterns\<close>, set once by discovery,
  and the list \<open>_loaded_patterns\<close>.\<close>

record selector_state =
  patterns :: patterns
  loaded_patterns :: "string list"

definition get_loaded_patterns :: "selector_state \<Rightarrow> string list" where
  "get_loaded_patterns st = loaded_patterns st"

definition reset_loaded_patterns :: "selector_state \<Rightarrow> selector_state" where
  "reset_loaded_patterns st = st\<lparr>loaded_patterns := []\<rparr>"

text \<open>\<open>pattern_name.lower().replace("_", "-").replace(" ", "-")\<close>.\<close>

definition normalize_name :: "string \<Rightarrow> string" where
  "normalize_name pattern_name =
     replace_char CHR '' '' CHR ''-'' (replace_char CHR ''_'' CHR ''-'' (lower pattern_name))"

text \<open>The three texts \<open>load_pattern\<close> returns: \<open>Pattern '...' not found\<close> with the available
  names, \<open>Pattern '...' is already loaded in context\<close> with the title, and
  \<open>Successfully loaded: ...\<close> with title, category, complexity and the parsed body.\<close>

datatype load_result =
    Not_found string "string list"
  | Already_loaded string
  | Successfully_loaded string string string string

definition load_pattern ::
  "filesystem \<Rightarrow> selector_state \<Rightarrow> string \<Rightarrow> (py_error + load_result) \<times> selector_state" where
  "load_pattern fs st pattern_name =
     (let nm = normalize_name pattern_name
      in case map_of (patterns st) nm of
           None \<Rightarrow> (Inr (Not_found pattern_name (map fst (patterns st))), st)
         | Some info \<Rightarrow>
             if nm \<in> set (loaded_patterns st) then (Inr (Already_loaded (title info)), st)
             else (case read_text fs (path info) of
                     None \<Rightarrow> (Inl OSError, st)
                   | Some content \<Rightarrow>
                       (let parsed = parse_pattern_frontmatter content
                        in (Inr (Successfully_loaded (title info) (category info)
                                   (complexity info) (body parsed)),
                            st\<lparr>loaded_patterns := loaded_patterns st @ [nm]\<rparr>))))"

text \<open>The functions of \<open>tools/patterns.py\<close> that use \<open>_loaded_patterns\<close> are
  \<open>load_pattern\<close>, \<open>get_loaded_patterns\<close>, \<open>reset_loaded_patterns\<close> and
  \<open>list_all_patterns\<close>, which only reads it to mark the loaded patterns. A call of the
  tracker is one of the first three; \<open>tracker_step\<close> is the state after the call.\<close>

datatype tracker_call =
    Load_pattern string
  | Get_loaded_patterns
  | Reset_loaded_patterns

fun tracker_step :: "filesystem \<Rightarrow> tracker_call \<Rightarrow> selector_state \<Rightarrow> selector_state" where
  "tracker_step fs (Load_pattern pattern_name) st = snd (load_pattern fs st pattern_name)"
| "tracker_step fs Get_loaded_patterns st = st"
| "tracker_step fs Reset_loaded_patterns st = reset_loaded_patterns st"

section \<open>Comparison renderer\<close>

text \<open>\<open>s.find(sub)\<close> and \<open>s.find(sub, start)\<close>; \<open>None\<close> stands for the result \<open>-1\<close>.\<close>

fun find_sub :: "string \<Rightarrow> string \<Rightarrow> nat option" where
  "find_sub sub [] = (if sub = [] then Some 0 else None)"
| "find_sub sub (c # cs) =
     (if prefix sub (c # cs) then Some 0 else map_option Suc (find_sub sub cs))"

definition find_from :: "string \<Rightarrow> string \<Rightarrow> nat \<Rightarrow> nat option" where
  "find_from sub s start =
     (if start > length s then None
      else map_option (\<lambda>i. i + start) (find_sub sub (drop start s)))"

text \<open>The excerpt of the section \<open>## When to Use\<close> shown for one pattern: from the heading
  to the next \<open>##\<close>, or 500 characters when there is none, stripped and cut to 400
  characters.\<close>

definition when_to_use_excerpt :: "string \<Rightarrow> string" where
  "when_to_use_excerpt body_text =
     (let when_to_use =
            (case find_sub ''## When to Use'' body_text of
               None \<Rightarrow> []
             | Some start \<Rightarrow>
                 (let stop = (case find_from ''##'' body_text (start + 10) of
                                Some e \<Rightarrow> if e > start then e else start + 500
                              | None \<Rightarrow> start + 500)
                  in strip (take (stop - start) (drop start body_text))))
      in if length when_to_use > 400 then take 400 when_to_use @ ''...'' else when_to_use)"

record comparison =
  compared :: "string list"
  titles :: "string list"
  categories :: "string list"
  complexities :: "string list"
  key_differences :: "(string \<times> string) list"

text \<open>The texts \<open>get_pattern_comparison\<close> returns: \<open>Invalid patterns: [...]\<close> with the
  available names, \<open>Please provide at least 2 patterns to compare.\<close>,
  \<open>Please limit comparison to 4 patterns or fewer.\<close>, or the comparison.\<close>

datatype comparison_result =
    Invalid_patterns "string list" "string list"
  | At_least_2
  | At_most_4
  | Pattern_comparison comparison

text \<open>\<open>[_patterns[n] for n in names]\<close>: a missing key raises \<open>KeyError\<close>.\<close>

fun lookup_all :: "patterns \<Rightarrow> string list \<Rightarrow> py_error + pattern_info list" where
  "lookup_all ps [] = Inr []"
| "lookup_all ps (n # ns) =
     (case map_of ps n of
        None \<Rightarrow> Inl KeyError
      | Some info \<Rightarrow>
          (case lookup_all ps ns of
             Inl e \<Rightarrow> Inl e
           | Inr infos \<Rightarrow> Inr (info # infos)))"

text \<open>The loop \<open>for name in names\<close> that reads each document again.\<close>

fun excerpts :: "filesystem \<Rightarrow> pattern_info list \<Rightarrow> py_error + (string \<times> string) list" where
  "excerpts fs [] = Inr []"
| "excerpts fs (info # rest) =
     (case read_text fs (path info) of
        None \<Rightarrow> Inl OSError
      | Some content \<Rightarrow>
          (case excerpts fs rest of
             Inl e \<Rightarrow> Inl e
           | Inr ds \<Rightarrow>
               Inr ((title info, when_to_use_excerpt (body (parse_pattern_frontmatter content)))
                    # ds)))"

text \<open>\<open>[n.strip().lower().replace("_", "-") for n in pattern_names.split(",")]\<close>.\<close>

definition comparison_names :: "string \<Rightarrow> string list" where
  "comparison_names pattern_names =
     map (\<lambda>n. replace_char CHR ''_'' CHR ''-'' (lower (strip n)))
       (split_on CHR '','' pattern_names)"

text \<open>\<open>[n for n in names if n not in _patterns]\<close>.\<close>

definition invalid_names :: "selector_state \<Rightarrow> string list \<Rightarrow> string list" where
  "invalid_names st names = filter (\<lambda>n. map_of (patterns st) n = None) names"

definition get_pattern_comparison ::
  "filesystem \<Rightarrow> selector_state \<Rightarrow> string \<Rightarrow> py_error + comparison_result" where
  "get_pattern_comparison fs st pattern_names =
     (let names = comparison_names pattern_names;
          invalid = invalid_names st names
      in if invalid \<noteq> [] then Inr (Invalid_patterns invalid (map fst (patterns st)))
         else if length names < 2 then Inr At_least_2
         else if length names > 4 then Inr At_most_4
         else (case lookup_all (patterns st) names of
                 Inl e \<Rightarrow> Inl e
               | Inr infos \<Rightarrow>
                   (case excerpts fs infos of
                      Inl e \<Rightarrow> Inl e
                    | Inr ds \<Rightarrow>
                        Inr (Pattern_comparison
                               \<lparr>compared = names,
                                titles = map title infos,
                                categories = map category infos,
                                complexities = map complexity infos,
                                key_differences = ds\<rparr>))))"

section \<open>Session load tracker of the skills assistant\<close>

text \<open>The module-level state of \<open>tools/code/skills.py\<close>: the dictionary \<open>_skills\<close> and the
  list \<open>_loaded_skills\<close>. This tracker has the same design as the one of
  \<open>tools/patterns.py\<close> and, unlike it, an operation that unloads.\<close>

record skill_info =
  skill_name :: string
  skill_description :: string
  skill_path :: string

record skills_state =
  skills :: "(string \<times> skill_info) list"
  loaded_skills :: "string list"

text \<open>\<open>parse_skill_frontmatter\<close> uses the frontmatter pattern of
  \<open>parse_pattern_frontmatter\<close> and keeps \<open>name\<close>, \<open>description\<close> and \<open>body\<close>.\<close>

record parsed_skill =
  parsed_name :: string
  parsed_description :: string
  parsed_body :: string

definition parse_skill_frontmatter :: "string \<Rightarrow> parsed_skill" where
  "parse_skill_frontmatter content =
     (case frontmatter_match content of
        None \<Rightarrow>
          \<lparr>parsed_name = ''unknown'', parsed_description = ''No description'',
           parsed_body = content\<rparr>
      | Some (frontmatter_text, body_text) \<Rightarrow>
          (let metadata = parse_lines (split_on NL frontmatter_text) Map.empty
           in \<lparr>parsed_name = get_default metadata ''name'' ''unknown'',
               parsed_description = get_default metadata ''description'' ''No description'',
               parsed_body = strip body_text\<rparr>))"

definition load_skill_content :: "filesystem \<Rightarrow> string \<Rightarrow> py_error + string" where
  "load_skill_content fs p =
     (case read_text fs p of
        None \<Rightarrow> Inl OSError
      | Some content \<Rightarrow> Inr (parsed_body (parse_skill_frontmatter content)))"

definition get_loaded_skills :: "skills_state \<Rightarrow> string list" where
  "get_loaded_skills st = loaded_skills st"

definition reset_loaded_skills :: "skills_state \<Rightarrow> skills_state" where
  "reset_loaded_skills st = st\<lparr>loaded_skills := []\<rparr>"

datatype load_skill_result =
    Skill_not_found string "string list"
  | Skill_already_loaded string
  | Skill_loaded string string string

definition load_skill ::
  "filesystem \<Rightarrow> skills_state \<Rightarrow> string \<Rightarrow> (py_error + load_skill_result) \<times> skills_state" where
  "load_skill fs st name_given =
     (let skill_id = normalize_name name_given
      in case map_of (skills st) skill_id of
           None \<Rightarrow> (Inr (Skill_not_found name_given (map fst (skills st))), st)
         | Some skill \<Rightarrow>
             if skill_id \<in> set (loaded_skills st)
             then (Inr (Skill_already_loaded (skill_name skill)), st)
             else (case load_skill_content fs (skill_path skill) of
                     Inl e \<Rightarrow> (Inl e, st)
                   | Inr skill_content \<Rightarrow>
                       (Inr (Skill_loaded (skill_name skill) (skill_description skill)
                               skill_content),
                        st\<lparr>loaded_skills := loaded_skills st @ [skill_id]\<rparr>)))"

text \<open>The texts \<open>unload_skill\<close> returns: \<open>Skill '...' is not currently loaded.\<close> and
  \<open>Skill '...' has been unloaded.\<close> The list is changed by \<open>remove\<close>, which deletes the
  first occurrence, before \<open>_skills[skill_id]\<close> is looked up for the message.\<close>

datatype unload_result =
    Not_currently_loaded string
  | Has_been_unloaded string

definition unload_skill ::
  "skills_state \<Rightarrow> string \<Rightarrow> (py_error + unload_result) \<times> skills_state" where
  "unload_skill st name_given =
     (let skill_id = normalize_name name_given
      in if skill_id \<notin> set (loaded_skills st) then (Inr (Not_currently_loaded name_given), st)
         else (let st' = st\<lparr>loaded_skills := remove1 skill_id (loaded_skills st)\<rparr>
               in case map_of (skills st) skill_id of
                    None \<Rightarrow> (Inl KeyError, st')
                  | Some skill \<Rightarrow> (Inr (Has_been_unloaded (skill_name skill)), st')))"

text \<open>What \<open>load_skill\<close>, \<open>unload_skill\<close> and \<open>reset_loaded_skills\<close> maintain: no skill is
  loaded twice, and every loaded skill is a discovered one.\<close>

definition tracker_invariant :: "skills_state \<Rightarrow> bool" where
  "tracker_invariant st \<longleftrightarrow>
     distinct (loaded_skills st) \<and> set (loaded_skills st) \<subseteq> fst ` set (skills st)"

section \<open>A sample knowledge directory\<close>

text \<open>Two documents with a header and one without, for evaluating the tools.\<close>

definition handoffs_md :: string where
  "handoffs_md =
     ''---'' @ [NL] @ ''name: handoffs'' @ [NL] @ ''title: Handoffs Pattern'' @ [NL] @
     ''description: State machine with tool-driven transitions'' @ [NL] @
     ''category: workflow'' @ [NL] @ ''complexity: medium'' @ [NL] @ ''---'' @ [NL] @ [NL] @
     ''# Handoffs'' @ [NL] @ [NL] @ ''## When to Use'' @ [NL] @ ''Sequential stages.'' @ [NL] @
     [NL] @ ''## When NOT to Use'' @ [NL] @ ''Parallel work.'' @ [NL]"

definition deep_agents_md :: string where
  "deep_agents_md =
     ''---'' @ [NL] @ ''name: deep-agents'' @ [NL] @ ''title: Deep Agents'' @ [NL] @
     ''description: Isolated subagent work'' @ [NL] @
     ''category: context'' @ [NL] @ ''complexity: high'' @ [NL] @ ''---'' @ [NL] @
     ''## When to Use'' @ [NL] @ ''Large tool outputs.'' @ [NL]"

definition notes_md :: string where
  "notes_md = ''Notes without a header.'' @ [NL]"

definition sample_fs :: filesystem where
  "sample_fs =
     \<lparr>dir_exists = True,
      glob_md = [''knowledge/handoffs.md'', ''knowledge/deep-agents.md'', ''knowledge/notes.md''],
      read_text =
        map_of [(''knowledge/handoffs.md'', handoffs_md),
                (''knowledge/deep-agents.md'', deep_agents_md),
                (''knowledge/notes.md'', notes_md)]\<rparr>"

definition sample_patterns :: patterns where
  "sample_patterns =
     [(''handoffs'',
       \<lparr>name = ''handoffs'', title = ''Handoffs Pattern'',
        description = ''State machine with tool-driven transitions'',
        category = ''workflow'', complexity = ''medium'', path = ''knowledge/handoffs.md''\<rparr>),
      (''deep-agents'',
       \<lparr>name = ''deep-agents'', title = ''Deep Agents'',
        description = ''Isolated subagent work'',
        category = ''context'', complexity = ''high'', path = ''knowledge/deep-agents.md''\<rparr>),
      (''unknown'',
       \<lparr>name = ''unknown'', title = ''Unknown Pattern'', description = ''No description'',
        category = ''unknown'', complexity = ''unknown'', path = ''knowledge/notes.md''\<rparr>)]"

definition fresh_state :: selector_state where
  "fresh_state = \<lparr>patterns = sample_patterns, loaded_patterns = []\<rparr>"

text \<open>A sample state of the skills tracker: two discovered skills, one of them loaded.\<close>

definition sample_skills :: skills_state where
  "sample_skills =
     \<lparr>skills =
        [(''python-expert'',
          \<lparr>skill_name = ''Python Expert'', skill_description = ''Python best practices'',
           skill_path = ''skills/python-expert/SKILL.md''\<rparr>),
         (''go-expert'',
          \<lparr>skill_name = ''Go Expert'', skill_description = ''Idiomatic Go'',
           skill_path = ''skills/go-expert/SKILL.md''\<rparr>)],
      loaded_skills = [''python-expert'']\<rparr>"

text \<open>A state of the pattern selector's tracker with two patterns loaded.\<close>

definition two_loaded :: selector_state where
  "two_loaded = \<lparr>patterns = sample_patterns, loaded_patterns = [''handoffs'', ''deep-agents'']\<rparr>"

text \<open>A knowledge directory whose one document names itself \<open>Deep_Agents\<close>, with a
  capital letter and an underscore.\<close>

definition deep_agents_named_md :: string where
  "deep_agents_named_md =
     ''---'' @ [NL] @ ''name: Deep_Agents'' @ [NL] @ ''title: Deep Agents'' @ [NL] @
     ''description: Isolated subagent work'' @ [NL] @
     ''category: context'' @ [NL] @ ''complexity: high'' @ [NL] @ ''---'' @ [NL] @
     ''## When to Use'' @ [NL] @ ''Large tool outputs.'' @ [NL]"

definition named_fs :: filesystem where
  "named_fs =
     \<lparr>dir_exists = True,
      glob_md = [''knowledge/deep-agents.md''],
      read_text = map_of [(''knowledge/deep-agents.md'', deep_agents_named_md)]\<rparr>"

definition named_patterns :: patterns where
  "named_patterns =
     [(''Deep_Agents'',
       \<lparr>name = ''Deep_Agents'', title = ''Deep Agents'',
        description = ''Isolated subagent work'',
        category = ''context'', complexity = ''high'', path = ''knowledge/deep-agents.md''\<rparr>)]"

section \<open>Properties of the requirement scorer\<close>

text \<open>
  C1 (as stated): for the input \<open>Need parallel execution and result synthesis\<close> the
  top-ranked option is \<open>router\<close>, the option rated 5 on both \<open>parallel_execution\<close> and
  \<open>result_synthesis\<close>. This does not hold: no phrase of the keyword table occurs in
  \<open>result synthesis\<close> (the table has \<open>synthesize\<close>, \<open>combine results\<close> and
  \<open>multiple sources\<close>), so \<open>result_synthesis\<close> is not detected and the top
  recommendation is not \<open>router\<close>.
\<close>

theorem evaluate_requirements_parallel_synthesis_counterexample:
  "(case evaluate_requirements ''Need parallel execution and result synthesis'' of
      Requirement_analysis r \<Rightarrow>
        top_recommendation r \<noteq> ''router'' \<and> ''result_synthesis'' \<notin> set (capabilities_needed r)
    | _ \<Rightarrow> False)"
  by code_simp

text \<open>
  C1 (amended): for the input \<open>Need parallel execution and result synthesis\<close> the only
  detected capability is \<open>parallel_execution\<close>; \<open>subagents\<close> and \<open>router\<close> both score 5 of
  5, and the stable sort keeps the order of the capability matrix, so the top
  recommendation is \<open>subagents\<close> and \<open>router\<close> is ranked second, reported as the
  alternative.
\<close>

theorem evaluate_requirements_parallel_synthesis:
  "evaluate_requirements ''Need parallel execution and result synthesis'' =
     Requirement_analysis
       \<lparr>capabilities_needed = [''parallel_execution''],
        fit_scores =
          [(''subagents'',
            \<lparr>score = 5, max_possible = 5, matched = [(''parallel_execution'', 5)]\<rparr>),
           (''router'',
            \<lparr>score = 5, max_possible = 5, matched = [(''parallel_execution'', 5)]\<rparr>),
           (''hierarchical-teams'',
            \<lparr>score = 4, max_possible = 5, matched = [(''parallel_execution'', 4)]\<rparr>),
           (''custom-workflows'',
            \<lparr>score = 4, max_possible = 5, matched = [(''parallel_execution'', 4)]\<rparr>),
           (''deep-agents'',
            \<lparr>score = 3, max_possible = 5, matched = [(''parallel_execution'', 3)]\<rparr>)],
        top_recommendation = ''subagents'',
        alternative = Some ''router''\<rparr>"
  by code_simp

subsection \<open>Detection\<close>

lemma detect_capabilities_set:
  "set (detect_capabilities t) =
     {cap. \<exists>kw. (kw, cap) \<in> set REQUIREMENT_MAPPINGS \<and> sublist kw t}"
  by (auto simp: detect_capabilities_def image_iff)

lemma detect_capabilities_distinct: "distinct (detect_capabilities t)"
  by (simp add: detect_capabilities_def)

lemma keywords_lower: "list_all (\<lambda>(kw, cap). lower kw = kw) REQUIREMENT_MAPPINGS"
  by code_simp

lemma keyword_lower: "(kw, cap) \<in> set REQUIREMENT_MAPPINGS \<Longrightarrow> lower kw = kw"
  using keywords_lower by (auto simp: list_all_iff)

lemma sorted_patterns_length: "length (sorted_patterns d) = 9"
  by (simp add: sorted_patterns_def sorted_reverse_def scores_def PATTERN_CAPABILITIES_def)

lemma evaluate_requirements_cases:
  "evaluate_requirements text = Could_not_detect \<and> detect_capabilities (lower text) = [] \<or>
   (\<exists>r. evaluate_requirements text = Requirement_analysis r \<and>
        capabilities_needed r = detect_capabilities (lower text) \<and>
        detect_capabilities (lower text) \<noteq> [])"
proof (cases "detect_capabilities (lower text) = []")
  case True
  then show ?thesis by (simp add: evaluate_requirements_def)
next
  case False
  obtain b os where "sorted_patterns (detect_capabilities (lower text)) = b # os"
    using sorted_patterns_length[of "detect_capabilities (lower text)"]
    by (cases "sorted_patterns (detect_capabilities (lower text))") auto
  then show ?thesis using False by (simp add: evaluate_requirements_def Let_def)
qed

text \<open>
  C2: for every input text and every (phrase, capability) entry of the keyword table, if
  the phrase occurs in the text up to case, that is, some substring \<open>s\<close> of the text and
  the phrase have the same lower-case form, then the scorer returns a report, and the
  capability is among the detected capabilities the report is computed from.
\<close>

theorem evaluate_requirements_detects_phrase:
  assumes "(phrase, capability) \<in> set REQUIREMENT_MAPPINGS"
    and "sublist s text"
    and "lower s = lower phrase"
  shows "\<exists>r. evaluate_requirements text = Requirement_analysis r \<and>
             capability \<in> set (capabilities_needed r) \<and>
             capability \<in> set (detect_capabilities (lower text))"
proof -
  have "sublist (lower s) (lower text)"
    unfolding lower_def using assms(2) by (rule map_mono_sublist)
  then have "sublist phrase (lower text)"
    using assms(1,3) keyword_lower by simp
  then have mem: "capability \<in> set (detect_capabilities (lower text))"
    using assms(1) unfolding detect_capabilities_set by blast
  then have "detect_capabilities (lower text) \<noteq> []" by auto
  then show ?thesis using evaluate_requirements_cases[of "text"] mem by auto
qed

theorem evaluate_requirements_detects_phrase_witness:
  "(''parallel'', ''parallel_execution'') \<in> set REQUIREMENT_MAPPINGS \<and>
   sublist ''PARALLEL'' ''Run the jobs in PARALLEL'' \<and>
   lower ''PARALLEL'' = lower ''parallel'' \<and>
   (\<exists>r. evaluate_requirements ''Run the jobs in PARALLEL'' = Requirement_analysis r \<and>
        ''parallel_execution'' \<in> set (capabilities_needed r) \<and>
        ''parallel_execution'' \<in> set (detect_capabilities (lower ''Run the jobs in PARALLEL'')))"
proof -
  have a: "(''parallel'', ''parallel_execution'') \<in> set REQUIREMENT_MAPPINGS" by code_simp
  have b: "sublist ''PARALLEL'' ''Run the jobs in PARALLEL''" by code_simp
  have c: "lower ''PARALLEL'' = lower ''parallel''" by code_simp
  show ?thesis
    by (intro conjI a b c evaluate_requirements_detects_phrase[OF a b c])
qed

subsection \<open>Scores\<close>

lemma score_caps_fst:
  "fst (score_caps capabilities d sc ms) = sc + sum_list (map (cap_value capabilities) d)"
  by (induction d arbitrary: sc ms) (auto simp: cap_value_def split: option.splits)

lemma score_pattern_score:
  "score (score_pattern d capabilities) = sum_list (map (cap_value capabilities) d)"
  using score_caps_fst[of capabilities d 0 "[]"]
  by (cases "score_caps capabilities d 0 []") (simp add: score_pattern_def)

lemma score_pattern_max: "max_possible (score_pattern d capabilities) = length d * 5"
  by (cases "score_caps capabilities d 0 []") (simp add: score_pattern_def)

lemma ratings_at_most_5:
  "list_all (\<lambda>(n, caps). list_all (\<lambda>(c, v). v \<le> 5) caps) PATTERN_CAPABILITIES"
  by code_simp

lemma cap_value_le_5:
  assumes "(pattern_name, capabilities) \<in> set PATTERN_CAPABILITIES"
  shows "cap_value capabilities cap \<le> 5"
proof (cases "map_of capabilities cap")
  case None
  then show ?thesis by (simp add: cap_value_def)
next
  case (Some v)
  then have "(cap, v) \<in> set capabilities" by (rule map_of_SomeD)
  then have "v \<le> 5" using ratings_at_most_5 assms by (auto simp: list_all_iff)
  then show ?thesis using Some by (simp add: cap_value_def)
qed

lemma pattern_names_distinct: "distinct (map fst PATTERN_CAPABILITIES)"
  by code_simp

lemma scores_lookup:
  assumes "(pattern_name, capabilities) \<in> set PATTERN_CAPABILITIES"
  shows "map_of (scores d) pattern_name = Some (score_pattern d capabilities)"
proof -
  have "map_of PATTERN_CAPABILITIES pattern_name = Some capabilities"
    using assms pattern_names_distinct by (rule_tac map_of_is_SomeI) auto
  then show ?thesis
    unfolding scores_def by (simp add: map_of_map)
qed

text \<open>
  C3: for every input text and every option of the capability matrix, the option's
  score is at most \<open>max_possible\<close>, which is 5 times the number of detected capabilities;
  and when the capabilities detected in one text are among those detected in another, the
  option's score for the first text is at most its score for the second.
\<close>

theorem score_bounded_and_monotone:
  assumes "(pattern_name, capabilities) \<in> set PATTERN_CAPABILITIES"
  shows
    "map_of (scores (detect_capabilities (lower text))) pattern_name =
       Some (score_pattern (detect_capabilities (lower text)) capabilities) \<and>
     score (score_pattern (detect_capabilities (lower text)) capabilities)
       \<le> max_possible (score_pattern (detect_capabilities (lower text)) capabilities) \<and>
     max_possible (score_pattern (detect_capabilities (lower text)) capabilities)
       = 5 * card (set (detect_capabilities (lower text))) \<and>
     (set (detect_capabilities (lower text)) \<subseteq> set (detect_capabilities (lower text'))
        \<longrightarrow> score (score_pattern (detect_capabilities (lower text)) capabilities)
              \<le> score (score_pattern (detect_capabilities (lower text')) capabilities))"
proof -
  let ?d = "detect_capabilities (lower text)"
  let ?d' = "detect_capabilities (lower text')"
  let ?v = "cap_value capabilities"
  have le5: "\<And>cap. ?v cap \<le> 5" using assms by (rule cap_value_le_5)
  have "sum_list (map ?v ?d) \<le> sum_list (map (\<lambda>_. 5) ?d)"
    by (rule sum_list_mono) (simp add: le5)
  then have bound: "score (score_pattern ?d capabilities) \<le> length ?d * 5"
    by (simp add: score_pattern_score sum_list_triv)
  have len: "length ?d = card (set ?d)"
    using detect_capabilities_distinct by (simp add: distinct_card)
  have mono: "sum_list (map ?v ?d) \<le> sum_list (map ?v ?d')" if sub: "set ?d \<subseteq> set ?d'"
  proof -
    have "sum_list (map ?v ?d) = sum ?v (set ?d)"
      using detect_capabilities_distinct by (rule sum_list_distinct_conv_sum_set)
    also have "\<dots> \<le> sum ?v (set ?d')"
      using sub by (intro sum_mono2) auto
    also have "\<dots> = sum_list (map ?v ?d')"
      using detect_capabilities_distinct by (rule sum_list_distinct_conv_sum_set[symmetric])
    finally show ?thesis .
  qed
  show ?thesis
    using scores_lookup[OF assms] bound len mono
    by (simp add: score_pattern_score score_pattern_max)
qed

theorem score_bounded_and_monotone_witness:
  "(''router'',
    [(''parallel_execution'', 5), (''context_isolation'', 3), (''distributed_development'', 4),
     (''direct_user_interaction'', 2), (''coordination_complexity'', 2),
     (''large_data_handling'', 3), (''workflow_stages'', 1), (''query_classification'', 5),
     (''result_synthesis'', 5)]) \<in> set PATTERN_CAPABILITIES \<and>
   set (detect_capabilities (lower ''parallel'')) \<subseteq>
     set (detect_capabilities (lower ''parallel, and synthesize'')) \<and>
   score (score_pattern (detect_capabilities (lower ''parallel''))
      [(''parallel_execution'', 5), (''context_isolation'', 3), (''distributed_development'', 4),
       (''direct_user_interaction'', 2), (''coordination_complexity'', 2),
       (''large_data_handling'', 3), (''workflow_stages'', 1), (''query_classification'', 5),
       (''result_synthesis'', 5)])
     \<le> score (score_pattern (detect_capabilities (lower ''parallel, and synthesize''))
      [(''parallel_execution'', 5), (''context_isolation'', 3), (''distributed_development'', 4),
       (''direct_user_interaction'', 2), (''coordination_complexity'', 2),
       (''large_data_handling'', 3), (''workflow_stages'', 1), (''query_classification'', 5),
       (''result_synthesis'', 5)])"
proof -
  let ?router =
    "[(''parallel_execution'', 5::nat), (''context_isolation'', 3), (''distributed_development'', 4),
      (''direct_user_interaction'', 2), (''coordination_complexity'', 2),
      (''large_data_handling'', 3), (''workflow_stages'', 1), (''query_classification'', 5),
      (''result_synthesis'', 5)]"
  have a: "(''router'', ?router) \<in> set PATTERN_CAPABILITIES" by code_simp
  have d1: "detect_capabilities (lower ''parallel'') = [''parallel_execution'']" by code_simp
  have d2: "detect_capabilities (lower ''parallel, and synthesize'') =
              [''parallel_execution'', ''result_synthesis'']" by code_simp
  have b: "set (detect_capabilities (lower ''parallel'')) \<subseteq>
             set (detect_capabilities (lower ''parallel, and synthesize''))"
    unfolding d1 d2 by simp
  from score_bounded_and_monotone[OF a, of "''parallel''" "''parallel, and synthesize''"] b
  have "score (score_pattern (detect_capabilities (lower ''parallel'')) ?router)
          \<le> score (score_pattern (detect_capabilities (lower ''parallel, and synthesize'')) ?router)"
    by blast
  with a b show ?thesis by blast
qed

lemma detect_capabilities_append:
  "set (detect_capabilities (lower text)) \<subseteq> set (detect_capabilities (lower (text @ suffix_text)))"
  unfolding detect_capabilities_set lower_def by (auto simp: sublist_append)

subsection \<open>Sentinels\<close>

lemma matches_empty_iff:
  "matches p = [] \<longleftrightarrow> (\<forall>(pat, kws) \<in> set indicators. \<forall>kw \<in> set kws. \<not> sublist kw p)"
  by (auto simp: matches_def filter_empty_conv)

lemma detect_capabilities_empty_iff:
  "detect_capabilities t = [] \<longleftrightarrow> (\<forall>(kw, cap) \<in> set REQUIREMENT_MAPPINGS. \<not> sublist kw t)"
  by (auto simp: detect_capabilities_def filter_empty_conv)

lemma sorted_reverse_length: "length (sorted_reverse k xs) = length xs"
  by (simp add: sorted_reverse_def)

lemma analyze_use_case_cases:
  "analyze_use_case text = Could_not_identify \<and> matches (lower text) = [] \<or>
   (\<exists>r. analyze_use_case text = Use_case_analysis r \<and> matches (lower text) \<noteq> [])"
proof (cases "matches (lower text) = []")
  case True
  then show ?thesis by (simp add: analyze_use_case_def)
next
  case False
  then obtain b os where "sorted_reverse snd (matches (lower text)) = b # os"
    using sorted_reverse_length[of snd "matches (lower text)"]
    by (cases "sorted_reverse snd (matches (lower text))") auto
  then show ?thesis using False by (simp add: analyze_use_case_def Let_def)
qed

lemma build_something_cool:
  "evaluate_requirements ''build something cool'' = Could_not_detect"
  "analyze_use_case ''build something cool'' = Could_not_identify"
  by code_simp+

text \<open>
  C4: the requirement scorer returns its message \<open>Could not detect ...\<close> exactly when no
  phrase of the keyword table is a substring of the lower-cased input, and a report
  otherwise; the use-case classifier returns its message \<open>Could not identify ...\<close> exactly
  when no indicator phrase of any option is a substring of the lower-cased input, and a
  report otherwise; the input \<open>build something cool\<close> yields both messages.
\<close>

theorem sentinel_iff_nothing_matched:
  "(evaluate_requirements text = Could_not_detect \<longleftrightarrow>
      (\<forall>(kw, cap) \<in> set REQUIREMENT_MAPPINGS. \<not> sublist kw (lower text))) \<and>
   ((\<exists>r. evaluate_requirements text = Requirement_analysis r) \<longleftrightarrow>
      (\<exists>(kw, cap) \<in> set REQUIREMENT_MAPPINGS. sublist kw (lower text))) \<and>
   (analyze_use_case text = Could_not_identify \<longleftrightarrow>
      (\<forall>(pat, kws) \<in> set indicators. \<forall>kw \<in> set kws. \<not> sublist kw (lower text))) \<and>
   ((\<exists>r. analyze_use_case text = Use_case_analysis r) \<longleftrightarrow>
      (\<exists>(pat, kws) \<in> set indicators. \<exists>kw \<in> set kws. sublist kw (lower text))) \<and>
   evaluate_requirements ''build something cool'' = Could_not_detect \<and>
   analyze_use_case ''build something cool'' = Could_not_identify"
proof -
  define P where "P \<equiv> (\<forall>(kw, cap) \<in> set REQUIREMENT_MAPPINGS. \<not> sublist kw (lower text))"
  define Q where "Q \<equiv> (\<forall>(pat, kws) \<in> set indicators. \<forall>kw \<in> set kws. \<not> sublist kw (lower text))"
  have P': "(\<exists>(kw, cap) \<in> set REQUIREMENT_MAPPINGS. sublist kw (lower text)) \<longleftrightarrow> \<not> P"
    unfolding P_def by (simp add: split_def)
  have Q': "(\<exists>(pat, kws) \<in> set indicators. \<exists>kw \<in> set kws. sublist kw (lower text)) \<longleftrightarrow> \<not> Q"
    unfolding Q_def by (simp add: split_def)
  have e: "detect_capabilities (lower text) = [] \<longleftrightarrow> P"
    unfolding P_def by (rule detect_capabilities_empty_iff)
  have m: "matches (lower text) = [] \<longleftrightarrow> Q"
    unfolding Q_def by (rule matches_empty_iff)
  have 1: "evaluate_requirements text = Could_not_detect \<longleftrightarrow> P"
    using evaluate_requirements_cases[of "text"] e by auto
  have 2: "(\<exists>r. evaluate_requirements text = Requirement_analysis r) \<longleftrightarrow> \<not> P"
    using evaluate_requirements_cases[of "text"] e by auto
  have 3: "analyze_use_case text = Could_not_identify \<longleftrightarrow> Q"
    using analyze_use_case_cases[of "text"] m by auto
  have 4: "(\<exists>r. analyze_use_case text = Use_case_analysis r) \<longleftrightarrow> \<not> Q"
    using analyze_use_case_cases[of "text"] m by auto
  show ?thesis
    unfolding P' Q' unfolding P_def[symmetric] Q_def[symmetric]
    using 1 2 3 4 build_something_cool by simp
qed

theorem sentinel_iff_nothing_matched_witness:
  "(''workflow'', ''workflow_stages'') \<in> set REQUIREMENT_MAPPINGS \<and>
   sublist ''workflow'' (lower ''A Workflow'') \<and>
   evaluate_requirements ''A Workflow'' \<noteq> Could_not_detect \<and>
   (''handoffs'',
     [''customer support'', ''stages'', ''steps'', ''greeting'', ''collect'', ''resolve'',
      ''state machine'', ''workflow'', ''sequential'', ''talk to user'', ''conversation flow''])
     \<in> set indicators \<and>
   analyze_use_case ''A Workflow'' \<noteq> Could_not_identify"
proof -
  let ?ks = "[''customer support'', ''stages'', ''steps'', ''greeting'', ''collect'', ''resolve'',
      ''state machine'', ''workflow'', ''sequential'', ''talk to user'', ''conversation flow'']"
  have a: "(''workflow'', ''workflow_stages'') \<in> set REQUIREMENT_MAPPINGS" by code_simp
  have b: "sublist ''workflow'' (lower ''A Workflow'')" by code_simp
  have c: "(''handoffs'', ?ks) \<in> set indicators" by code_simp
  have d: "''workflow'' \<in> set ?ks" by simp
  from sentinel_iff_nothing_matched[of "''A Workflow''"] a b
  have 1: "evaluate_requirements ''A Workflow'' \<noteq> Could_not_detect" by blast
  from sentinel_iff_nothing_matched[of "''A Workflow''"] c d b
  have 2: "analyze_use_case ''A Workflow'' \<noteq> Could_not_identify" by blast
  from a b c 1 2 show ?thesis by blast
qed

section \<open>Properties of the clarifying-question generator\<close>

lemma any_in_pair: "any_in [a, b] p \<longleftrightarrow> sublist a p \<or> sublist b p"
  by (simp add: any_in_def)

lemma unaddressed_pair: "unaddressed p (ms, q) \<longleftrightarrow> \<not> any_in ms p"
  by (simp add: unaddressed_def)

lemma map_snd_filter_Cons:
  "map snd (filter P (x # xs)) = (if P x then [snd x] else []) @ map snd (filter P xs)"
  by simp

lemma questions_axes: "questions p = map snd (filter (unaddressed p) axes)"
  unfolding questions_def axes_def
  by (simp only: map_snd_filter_Cons filter.simps(1) list.map append_Nil2 any_in_pair
        unaddressed_pair snd_conv de_Morgan_disj)

lemma axes_questions_distinct: "distinct (map snd axes)"
  by code_simp

lemma axes_length: "length axes = 6"
  by (simp add: axes_def)

lemma take_filter_mem:
  "distinct (map g xs) \<Longrightarrow> i < length xs \<Longrightarrow>
     g (xs ! i) \<in> set (take n (map g (filter P xs))) \<longleftrightarrow>
       P (xs ! i) \<and> length (filter P (take i xs)) < n"
proof (induction xs arbitrary: i n)
  case Nil
  then show ?case by simp
next
  case (Cons x xs)
  show ?case
  proof (cases i)
    case 0
    have "g x \<notin> set (map g (filter P xs))" using Cons.prems(1) by auto
    then have "g x \<notin> set (take n (map g (filter P xs)))" by (meson in_set_takeD)
    then show ?thesis using 0 by (cases n) auto
  next
    case (Suc j)
    then have jl: "j < length xs" using Cons.prems by simp
    then have jm: "xs ! j \<in> set xs" by simp
    have d: "distinct (map g xs)" using Cons.prems by simp
    have "g x \<notin> g ` set xs" using Cons.prems(1) by simp
    moreover have "g (xs ! j) \<in> g ` set xs" using jm by (rule imageI)
    ultimately have ne: "g (xs ! j) \<noteq> g x" by metis
    show ?thesis
    proof (cases "P x")
      case True
      show ?thesis
      proof (cases n)
        case 0
        then show ?thesis by simp
      next
        case (Suc m)
        then show ?thesis using True \<open>i = Suc j\<close> ne Cons.IH[OF d jl, of m] by simp
      qed
    next
      case False
      then show ?thesis using \<open>i = Suc j\<close> Cons.IH[OF d jl, of n] by simp
    qed
  qed
qed

text \<open>
  C5 (as stated): an axis's question is included if and only if none of the axis's marker
  words occurs in the input. This fails for the empty input: none of the markers of the
  axis \<open>Agent Count\<close> occurs in it, and its question is not among the four returned.
\<close>

theorem clarifying_questions_counterexample:
  "\<not> any_in [''single'', ''one'', ''multiple'', ''many'', ''several''] (lower '''') \<and>
   get_clarifying_questions '''' =
     Clarifying_questions [execution_model, user_interaction, data_volume, workflow_structure] \<and>
   agent_count \<notin> set [execution_model, user_interaction, data_volume, workflow_structure]"
  by code_simp

text \<open>
  C5 (amended): for every input text the generator returns either the message
  \<open>Your problem description is quite detailed ...\<close>, exactly when none of the six axes is
  unaddressed, or a list of at least one and at most four questions. An axis is
  unaddressed when none of its marker words is a substring of the lower-cased input. The
  question of the axis at position \<open>i\<close> in the declared order is in the list exactly when
  the axis is unaddressed and fewer than four axes before it are unaddressed.
\<close>

theorem clarifying_questions_capped:
  "(get_clarifying_questions text = Quite_detailed \<longleftrightarrow>
      (\<forall>axis \<in> set axes. \<not> unaddressed (lower text) axis)) \<and>
   (\<forall>qs. get_clarifying_questions text = Clarifying_questions qs \<longrightarrow>
      qs \<noteq> [] \<and> length qs \<le> 4 \<and>
      (\<forall>i < length axes.
         snd (axes ! i) \<in> set qs \<longleftrightarrow>
           unaddressed (lower text) (axes ! i) \<and>
           length (filter (unaddressed (lower text)) (take i axes)) < 4))"
proof -
  let ?p = "lower text"
  let ?qs = "questions ?p"
  have empty: "?qs = [] \<longleftrightarrow> (\<forall>axis \<in> set axes. \<not> unaddressed ?p axis)"
    unfolding questions_axes by (simp add: filter_empty_conv)
  have 1: "get_clarifying_questions text = Quite_detailed \<longleftrightarrow> ?qs = []"
    by (simp add: get_clarifying_questions_def Let_def)
  have 2: "qs \<noteq> [] \<and> length qs \<le> 4 \<and>
      (\<forall>i < length axes.
         snd (axes ! i) \<in> set qs \<longleftrightarrow>
           unaddressed ?p (axes ! i) \<and> length (filter (unaddressed ?p) (take i axes)) < 4)"
    if r: "get_clarifying_questions text = Clarifying_questions qs" for qs
  proof -
    have ne: "?qs \<noteq> []" and qs: "qs = take 4 ?qs"
      using r by (auto simp: get_clarifying_questions_def Let_def split: if_splits)
    have "qs \<noteq> []" using ne qs by (cases ?qs) auto
    moreover have "length qs \<le> 4" using qs by simp
    moreover have "\<forall>i < length axes.
         snd (axes ! i) \<in> set qs \<longleftrightarrow>
           unaddressed ?p (axes ! i) \<and> length (filter (unaddressed ?p) (take i axes)) < 4"
      unfolding qs questions_axes
      using take_filter_mem[OF axes_questions_distinct, of _ 4 "unaddressed ?p"] by blast
    ultimately show ?thesis by blast
  qed
  show ?thesis using 1 empty 2 by blast
qed

theorem clarifying_questions_capped_witness:
  "list_all (\<lambda>axis. \<not> unaddressed (lower ''parallel user large stage one audit'') axis) axes \<and>
   get_clarifying_questions ''parallel user large stage one audit'' = Quite_detailed \<and>
   get_clarifying_questions ''Building an assistant'' =
     Clarifying_questions [execution_model, user_interaction, data_volume, workflow_structure] \<and>
   (1::nat) < length axes \<and>
   unaddressed (lower ''Building an assistant'') (axes ! 1) \<and>
   length (filter (unaddressed (lower ''Building an assistant'')) (take 1 axes)) < 4 \<and>
   snd (axes ! 1) \<in> set [execution_model, user_interaction, data_volume, workflow_structure]"
proof -
  have a: "list_all (\<lambda>axis. \<not> unaddressed (lower ''parallel user large stage one audit'') axis) axes"
    by code_simp
  then have a': "\<forall>axis \<in> set axes. \<not> unaddressed (lower ''parallel user large stage one audit'') axis"
    by (simp add: list_all_iff)
  have b: "get_clarifying_questions ''Building an assistant'' =
     Clarifying_questions [execution_model, user_interaction, data_volume, workflow_structure]"
    by code_simp
  have c: "(1::nat) < length axes" by (simp add: axes_length)
  have d: "unaddressed (lower ''Building an assistant'') (axes ! 1)" by code_simp
  have e: "length (filter (unaddressed (lower ''Building an assistant'')) (take 1 axes)) < 4"
    by code_simp
  from clarifying_questions_capped[of "''parallel user large stage one audit''"] a'
  have 1: "get_clarifying_questions ''parallel user large stage one audit'' = Quite_detailed"
    by blast
  from clarifying_questions_capped[of "''Building an assistant''"] b c d e
  have 2: "snd (axes ! 1) \<in> set [execution_model, user_interaction, data_volume, workflow_structure]"
    by blast
  from a 1 b c d e 2 show ?thesis by blast
qed

section \<open>Properties of the knowledge store\<close>

subsection \<open>The matcher and the language of the frontmatter pattern\<close>

lemma ws_nl_sound:
  "r \<in> set (ws_nl s) \<Longrightarrow> \<exists>w. s = w @ NL # r \<and> list_all is_space w"
proof (induction s)
  case Nil
  then show ?case by simp
next
  case (Cons c cs)
  from Cons.prems consider
    (more) "is_space c" "r \<in> set (ws_nl cs)" | (here) "c = NL" "r = cs"
    by (auto split: if_splits)
  then show ?case
  proof cases
    case more
    then obtain w where "cs = w @ NL # r" "list_all is_space w" using Cons.IH by blast
    then have "c # cs = (c # w) @ NL # r \<and> list_all is_space (c # w)" using more by simp
    then show ?thesis by blast
  next
    case here
    then have "c # cs = [] @ NL # r \<and> list_all is_space []" by simp
    then show ?thesis by blast
  qed
qed

lemma ws_nl_complete:
  "list_all is_space w \<Longrightarrow> r \<in> set (ws_nl (w @ NL # r))"
  by (induction w) auto

lemma closing_Nil: "closing [] = None"
  by (simp add: closing_def)

lemma closing_sound:
  assumes "closing s = Some rest"
  shows "\<exists>w. s = NL # ''---'' @ w @ NL # rest \<and> list_all is_space w"
proof -
  from assms have p: "prefix (NL # ''---'') s"
    by (auto simp: closing_def split: if_splits)
  then obtain t where s: "s = (NL # ''---'') @ t" by (auto simp: prefix_def)
  then have "drop 4 s = t" by simp
  with assms p have "rest \<in> set (ws_nl t)"
    by (auto simp: closing_def split: list.splits)
  then obtain w where "t = w @ NL # rest" "list_all is_space w"
    using ws_nl_sound by blast
  then show ?thesis using s by auto
qed

lemma closing_complete:
  assumes "list_all is_space w"
  shows "closing (NL # ''---'' @ w @ NL # rest) \<noteq> None"
proof -
  have "rest \<in> set (ws_nl (w @ NL # rest))" using assms by (rule ws_nl_complete)
  then have "ws_nl (w @ NL # rest) \<noteq> []" by auto
  then show ?thesis by (auto simp: closing_def split: list.splits)
qed

lemma lazy_group_sound:
  "lazy_group acc s = Some (g, rest) \<Longrightarrow>
     \<exists>fm s'. s = fm @ s' \<and> g = acc @ fm \<and> closing s' = Some rest"
proof (induction acc s rule: lazy_group.induct)
  case (1 acc)
  then show ?case by simp
next
  case (2 acc c cs)
  show ?case
  proof (cases "closing (c # cs)")
    case (Some r)
    with "2.prems" have "g = acc" "r = rest" by auto
    then have "c # cs = [] @ (c # cs) \<and> g = acc @ [] \<and> closing (c # cs) = Some rest"
      using Some by simp
    then show ?thesis by blast
  next
    case None
    with "2.prems" have "lazy_group (acc @ [c]) cs = Some (g, rest)" by simp
    then obtain fm s' where "cs = fm @ s'" "g = (acc @ [c]) @ fm" "closing s' = Some rest"
      using "2.IH"[OF None] by blast
    then have "c # cs = (c # fm) @ s' \<and> g = acc @ (c # fm) \<and> closing s' = Some rest"
      by simp
    then show ?thesis by blast
  qed
qed

lemma lazy_group_complete:
  "closing s' \<noteq> None \<Longrightarrow> lazy_group acc (fm @ s') \<noteq> None"
proof (induction fm arbitrary: acc)
  case Nil
  then obtain c cs where "s' = c # cs" using closing_Nil by (cases s') auto
  then show ?case using Nil by auto
next
  case (Cons c fm)
  then show ?case by (cases "closing (c # fm @ s')") auto
qed

lemma first_match_Some:
  "first_match f xs = Some r \<Longrightarrow> \<exists>x \<in> set xs. f x = Some r"
  by (induction xs) (auto split: option.splits)

lemma first_match_not_None:
  "x \<in> set xs \<Longrightarrow> f x \<noteq> None \<Longrightarrow> first_match f xs \<noteq> None"
  by (induction xs) (auto split: option.splits)

lemma frontmatter_match_sound:
  assumes "frontmatter_match content = Some (fm, rest)"
  shows "\<exists>w1 w2. content = ''---'' @ w1 @ [NL] @ fm @ [NL] @ ''---'' @ w2 @ [NL] @ rest \<and>
                 list_all is_space w1 \<and> list_all is_space w2"
proof -
  from assms have p: "prefix ''---'' content"
    by (auto simp: frontmatter_match_def split: if_splits)
  then obtain t where c: "content = ''---'' @ t" by (auto simp: prefix_def)
  then have "drop 3 content = t" by simp
  with assms p have "first_match (lazy_group []) (ws_nl t) = Some (fm, rest)"
    by (simp add: frontmatter_match_def)
  from first_match_Some[OF this] obtain x where
    x: "x \<in> set (ws_nl t)" "lazy_group [] x = Some (fm, rest)"
    by (elim bexE)
  from ws_nl_sound[OF x(1)] obtain w1 where w1: "t = w1 @ NL # x" "list_all is_space w1"
    by (elim exE conjE)
  from lazy_group_sound[OF x(2)] obtain g s' where
    g: "x = g @ s'" "fm = [] @ g" "closing s' = Some rest"
    by (elim exE conjE)
  from closing_sound[OF g(3)] obtain w2 where
    w2: "s' = NL # ''---'' @ w2 @ NL # rest" "list_all is_space w2"
    by (elim exE conjE)
  have "fm = g" using g(2) by simp
  then have "content = ''---'' @ w1 @ [NL] @ fm @ [NL] @ ''---'' @ w2 @ [NL] @ rest"
    unfolding c w1(1) g(1) w2(1) by simp
  then show ?thesis using w1(2) w2(2) by blast
qed

lemma frontmatter_match_iff:
  "frontmatter_match content \<noteq> None \<longleftrightarrow> has_frontmatter content"
proof
  assume "frontmatter_match content \<noteq> None"
  then obtain fm rest where "frontmatter_match content = Some (fm, rest)" by auto
  then show "has_frontmatter content"
    unfolding has_frontmatter_def using frontmatter_match_sound by blast
next
  assume "has_frontmatter content"
  then obtain w1 fm w2 rest where
    c: "content = ''---'' @ w1 @ [NL] @ fm @ [NL] @ ''---'' @ w2 @ [NL] @ rest"
    and w: "list_all is_space w1" "list_all is_space w2"
    unfolding has_frontmatter_def by blast
  let ?x = "fm @ (NL # ''---'' @ w2 @ NL # rest)"
  have d: "drop 3 content = w1 @ NL # ?x" using c by simp
  have "?x \<in> set (ws_nl (drop 3 content))"
    unfolding d using w(1) by (rule ws_nl_complete)
  moreover have "lazy_group [] ?x \<noteq> None"
    using closing_complete[OF w(2)] by (rule lazy_group_complete)
  ultimately have "first_match (lazy_group []) (ws_nl (drop 3 content)) \<noteq> None"
    by (rule first_match_not_None)
  moreover have "prefix ''---'' content" using c by simp
  ultimately show "frontmatter_match content \<noteq> None"
    by (simp add: frontmatter_match_def)
qed

lemma parse_without_frontmatter:
  "\<not> has_frontmatter content \<Longrightarrow> parse_pattern_frontmatter content = placeholder content"
proof -
  assume "\<not> has_frontmatter content"
  then have "frontmatter_match content = None"
    using frontmatter_match_iff[of content] by blast
  then show ?thesis by (simp add: parse_pattern_frontmatter_def)
qed

subsection \<open>Discovery\<close>

lemma discover_loop_append:
  "discover_loop fs (xs @ ys) ps =
     (case discover_loop fs xs ps of Inl e \<Rightarrow> Inl e | Inr ps1 \<Rightarrow> discover_loop fs ys ps1)"
  by (induction xs arbitrary: ps) (auto simp: Let_def split: option.splits)

lemma discover_loop_keeps:
  "discover_loop fs files ps = Inr ps' \<Longrightarrow>
   (\<forall>g \<in> set files. \<forall>c. read_text fs g = Some c \<longrightarrow> name (parse_pattern_frontmatter c) \<noteq> k) \<Longrightarrow>
   map_of ps' k = map_of ps k"
proof (induction files arbitrary: ps)
  case Nil
  then show ?case by simp
next
  case (Cons f files)
  from Cons.prems(1) obtain c where c: "read_text fs f = Some c"
    by (cases "read_text fs f") auto
  let ?ps1 = "AList.update (name (parse_pattern_frontmatter c))
                (pattern_entry f (parse_pattern_frontmatter c)) ps"
  have "discover_loop fs files ?ps1 = Inr ps'" using Cons.prems(1) c by (simp add: Let_def)
  moreover have "\<forall>g \<in> set files. \<forall>c. read_text fs g = Some c \<longrightarrow>
                   name (parse_pattern_frontmatter c) \<noteq> k"
    using Cons.prems(2) by simp
  ultimately have "map_of ps' k = map_of ?ps1 k" by (rule Cons.IH)
  moreover have "name (parse_pattern_frontmatter c) \<noteq> k" using Cons.prems(2) c by simp
  ultimately show ?case by (simp add: update_conv')
qed

lemma discover_loop_persists:
  "discover_loop fs files ps = Inr ps' \<Longrightarrow> map_of ps k \<noteq> None \<Longrightarrow> map_of ps' k \<noteq> None"
proof (induction files arbitrary: ps)
  case Nil
  then show ?case by simp
next
  case (Cons f files)
  from Cons.prems(1) obtain c where c: "read_text fs f = Some c"
    by (cases "read_text fs f") auto
  let ?ps1 = "AList.update (name (parse_pattern_frontmatter c))
                (pattern_entry f (parse_pattern_frontmatter c)) ps"
  have "discover_loop fs files ?ps1 = Inr ps'" using Cons.prems(1) c by (simp add: Let_def)
  moreover have "map_of ?ps1 k \<noteq> None" using Cons.prems(2) by (simp add: update_conv')
  ultimately show ?case by (rule Cons.IH)
qed

lemma discover_loop_split:
  assumes "discover_loop fs (before @ f # after) ps = Inr ps'"
    and "read_text fs f = Some c"
  shows "\<exists>ps0. discover_loop fs after
                 (AList.update (name (parse_pattern_frontmatter c))
                    (pattern_entry f (parse_pattern_frontmatter c)) ps0) = Inr ps'"
proof (cases "discover_loop fs before ps")
  case (Inl e)
  then show ?thesis using assms(1) by (simp add: discover_loop_append)
next
  case (Inr ps0)
  then have "discover_loop fs after
               (AList.update (name (parse_pattern_frontmatter c))
                  (pattern_entry f (parse_pattern_frontmatter c)) ps0) = Inr ps'"
    using assms by (simp add: discover_loop_append Let_def)
  then show ?thesis by blast
qed

lemma discover_loop_listed:
  assumes "discover_loop fs (before @ f # after) ps = Inr ps'"
    and "read_text fs f = Some c"
  shows "map_of ps' (name (parse_pattern_frontmatter c)) \<noteq> None"
proof -
  from discover_loop_split[OF assms] obtain ps0 where
    "discover_loop fs after
       (AList.update (name (parse_pattern_frontmatter c))
          (pattern_entry f (parse_pattern_frontmatter c)) ps0) = Inr ps'"
    by (elim exE)
  then show ?thesis
    by (rule discover_loop_persists) (simp add: update_conv')
qed

lemma discover_loop_last:
  assumes "discover_loop fs (before @ f # after) ps = Inr ps'"
    and "read_text fs f = Some c"
    and "\<forall>g \<in> set after. \<forall>c'. read_text fs g = Some c' \<longrightarrow>
           name (parse_pattern_frontmatter c') \<noteq> name (parse_pattern_frontmatter c)"
  shows "map_of ps' (name (parse_pattern_frontmatter c)) =
           Some (pattern_entry f (parse_pattern_frontmatter c))"
proof -
  from discover_loop_split[OF assms(1,2)] obtain ps0 where
    d: "discover_loop fs after
       (AList.update (name (parse_pattern_frontmatter c))
          (pattern_entry f (parse_pattern_frontmatter c)) ps0) = Inr ps'"
    by (elim exE)
  have "map_of ps' (name (parse_pattern_frontmatter c)) =
          map_of (AList.update (name (parse_pattern_frontmatter c))
                    (pattern_entry f (parse_pattern_frontmatter c)) ps0)
            (name (parse_pattern_frontmatter c))"
    using d assms(3) by (rule discover_loop_keeps)
  then show ?thesis by (simp add: update_conv')
qed

lemma sample_discovery: "discover_patterns sample_fs = Inr sample_patterns"
  by code_simp

lemma notes_md_no_frontmatter: "\<not> has_frontmatter notes_md"
proof -
  have "frontmatter_match notes_md = None" by code_simp
  then show ?thesis using frontmatter_match_iff[of notes_md] by simp
qed

lemma load_unknown_sample:
  "load_pattern sample_fs fresh_state ''unknown'' =
     (Inr (Successfully_loaded ''Unknown Pattern'' ''unknown'' ''unknown'' notes_md),
      \<lparr>patterns = sample_patterns, loaded_patterns = [''unknown'']\<rparr>)"
  by code_simp

text \<open>
  C8 (as stated): a document without a header is listed but excluded from lookup by
  identifier. This does not hold: discovery enters the document under the identifier
  \<open>unknown\<close>, and \<open>load_pattern\<close> with that identifier finds it and returns its content.
\<close>

theorem placeholder_lookup_counterexample:
  "\<not> has_frontmatter notes_md \<and>
   read_text sample_fs ''knowledge/notes.md'' = Some notes_md \<and>
   discover_patterns sample_fs = Inr sample_patterns \<and>
   load_pattern sample_fs \<lparr>patterns = sample_patterns, loaded_patterns = []\<rparr> ''unknown'' =
     (Inr (Successfully_loaded ''Unknown Pattern'' ''unknown'' ''unknown'' notes_md),
      \<lparr>patterns = sample_patterns, loaded_patterns = [''unknown'']\<rparr>)"
proof -
  have r: "read_text sample_fs ''knowledge/notes.md'' = Some notes_md" by code_simp
  show ?thesis
    using notes_md_no_frontmatter r sample_discovery load_unknown_sample
    by (simp add: fresh_state_def)
qed

text \<open>
  C8 (amended): parsing is total, and for every document content without a header of the
  frontmatter pattern it yields the placeholder metadata (name \<open>unknown\<close>, title
  \<open>Unknown Pattern\<close>, \<open>No description\<close>, category and complexity \<open>unknown\<close>) with the raw
  content as body. Discovery over a missing directory yields the empty option map.
  Discovery over an existing directory enters such a document under the identifier
  \<open>unknown\<close>, so that the identifier is listed; and when no later document of the scan
  parses to the name \<open>unknown\<close>, the entry is this document, and on a fresh loaded set
  \<open>load_pattern\<close> with the identifier \<open>unknown\<close> finds it and returns its raw content.
\<close>

theorem knowledge_discovery_fails_soft:
  "(\<not> has_frontmatter content \<longrightarrow> parse_pattern_frontmatter content = placeholder content) \<and>
   (\<not> dir_exists fs \<longrightarrow> discover_patterns fs = Inr []) \<and>
   (dir_exists fs \<and> discover_patterns fs = Inr ps \<and>
    glob_md fs = before @ pattern_file # after \<and>
    read_text fs pattern_file = Some content \<and> \<not> has_frontmatter content \<longrightarrow>
      map_of ps ''unknown'' \<noteq> None \<and>
      ((\<forall>g \<in> set after. \<forall>c. read_text fs g = Some c \<longrightarrow>
            name (parse_pattern_frontmatter c) \<noteq> ''unknown'') \<longrightarrow>
         map_of ps ''unknown'' =
           Some \<lparr>name = ''unknown'', title = ''Unknown Pattern'',
                 description = ''No description'', category = ''unknown'',
                 complexity = ''unknown'', path = pattern_file\<rparr> \<and>
         load_pattern fs \<lparr>patterns = ps, loaded_patterns = []\<rparr> ''unknown'' =
           (Inr (Successfully_loaded ''Unknown Pattern'' ''unknown'' ''unknown'' content),
            \<lparr>patterns = ps, loaded_patterns = [''unknown'']\<rparr>)))"
proof (intro conjI impI)
  assume "\<not> has_frontmatter content"
  then show "parse_pattern_frontmatter content = placeholder content"
    by (rule parse_without_frontmatter)
next
  assume "\<not> dir_exists fs"
  then show "discover_patterns fs = Inr []" by (simp add: discover_patterns_def)
next
  assume a: "dir_exists fs \<and> discover_patterns fs = Inr ps \<and>
    glob_md fs = before @ pattern_file # after \<and>
    read_text fs pattern_file = Some content \<and> \<not> has_frontmatter content"
  then have p: "parse_pattern_frontmatter content = placeholder content"
    using parse_without_frontmatter by blast
  have n: "name (parse_pattern_frontmatter content) = ''unknown''"
    unfolding p by (simp add: placeholder_def)
  have d: "discover_loop fs (before @ pattern_file # after) [] = Inr ps"
    using a by (auto simp: discover_patterns_def)
  have r: "read_text fs pattern_file = Some content" using a by blast
  show "map_of ps ''unknown'' \<noteq> None"
    using discover_loop_listed[OF d r] n by simp
next
  assume a: "dir_exists fs \<and> discover_patterns fs = Inr ps \<and>
    glob_md fs = before @ pattern_file # after \<and>
    read_text fs pattern_file = Some content \<and> \<not> has_frontmatter content"
  assume l: "\<forall>g \<in> set after. \<forall>c. read_text fs g = Some c \<longrightarrow>
            name (parse_pattern_frontmatter c) \<noteq> ''unknown''"
  have p: "parse_pattern_frontmatter content = placeholder content"
    using a parse_without_frontmatter by blast
  have n: "name (parse_pattern_frontmatter content) = ''unknown''"
    unfolding p by (simp add: placeholder_def)
  have d: "discover_loop fs (before @ pattern_file # after) [] = Inr ps"
    using a by (auto simp: discover_patterns_def)
  have r: "read_text fs pattern_file = Some content" using a by blast
  have l': "\<forall>g \<in> set after. \<forall>c'. read_text fs g = Some c' \<longrightarrow>
            name (parse_pattern_frontmatter c') \<noteq> name (parse_pattern_frontmatter content)"
    using l n by simp
  have "map_of ps (name (parse_pattern_frontmatter content)) =
          Some (pattern_entry pattern_file (parse_pattern_frontmatter content))"
    using d r l' by (rule discover_loop_last)
  then show e: "map_of ps ''unknown'' =
           Some \<lparr>name = ''unknown'', title = ''Unknown Pattern'',
                 description = ''No description'', category = ''unknown'',
                 complexity = ''unknown'', path = pattern_file\<rparr>"
    unfolding n unfolding p by (simp add: pattern_entry_def placeholder_def)
  have nn: "normalize_name ''unknown'' = ''unknown''" by code_simp
  show "load_pattern fs \<lparr>patterns = ps, loaded_patterns = []\<rparr> ''unknown'' =
           (Inr (Successfully_loaded ''Unknown Pattern'' ''unknown'' ''unknown'' content),
            \<lparr>patterns = ps, loaded_patterns = [''unknown'']\<rparr>)"
    using e r p by (simp add: load_pattern_def nn Let_def placeholder_def)
qed

theorem knowledge_discovery_fails_soft_witness:
  "\<not> has_frontmatter notes_md \<and>
   parse_pattern_frontmatter notes_md = placeholder notes_md \<and>
   \<not> dir_exists (sample_fs\<lparr>dir_exists := False\<rparr>) \<and>
   discover_patterns (sample_fs\<lparr>dir_exists := False\<rparr>) = Inr [] \<and>
   dir_exists sample_fs \<and> discover_patterns sample_fs = Inr sample_patterns \<and>
   glob_md sample_fs =
     [''knowledge/handoffs.md'', ''knowledge/deep-agents.md''] @ ''knowledge/notes.md'' # [] \<and>
   read_text sample_fs ''knowledge/notes.md'' = Some notes_md \<and>
   map_of sample_patterns ''unknown'' \<noteq> None \<and>
   load_pattern sample_fs \<lparr>patterns = sample_patterns, loaded_patterns = []\<rparr> ''unknown'' =
     (Inr (Successfully_loaded ''Unknown Pattern'' ''unknown'' ''unknown'' notes_md),
      \<lparr>patterns = sample_patterns, loaded_patterns = [''unknown'']\<rparr>)"
proof -
  have h: "\<not> has_frontmatter notes_md" by (rule notes_md_no_frontmatter)
  have m: "\<not> dir_exists (sample_fs\<lparr>dir_exists := False\<rparr>)" by simp
  have x: "dir_exists sample_fs" by (simp add: sample_fs_def)
  have g: "glob_md sample_fs =
     [''knowledge/handoffs.md'', ''knowledge/deep-agents.md''] @ ''knowledge/notes.md'' # []"
    by (simp add: sample_fs_def)
  have r: "read_text sample_fs ''knowledge/notes.md'' = Some notes_md" by code_simp
  have l: "\<forall>g \<in> set []. \<forall>c. read_text sample_fs g = Some c \<longrightarrow>
            name (parse_pattern_frontmatter c) \<noteq> ''unknown''" by simp
  note t1 = knowledge_discovery_fails_soft[of notes_md "sample_fs\<lparr>dir_exists := False\<rparr>"]
  note t2 = knowledge_discovery_fails_soft[of notes_md sample_fs sample_patterns
      "[''knowledge/handoffs.md'', ''knowledge/deep-agents.md'']" "''knowledge/notes.md''" "[]"]
  have 1: "parse_pattern_frontmatter notes_md = placeholder notes_md" using t1 h by blast
  have 2: "discover_patterns (sample_fs\<lparr>dir_exists := False\<rparr>) = Inr []" using t1 m by blast
  have 3: "map_of sample_patterns ''unknown'' \<noteq> None"
    using t2 h x g r sample_discovery by blast
  have 4: "load_pattern sample_fs \<lparr>patterns = sample_patterns, loaded_patterns = []\<rparr> ''unknown'' =
     (Inr (Successfully_loaded ''Unknown Pattern'' ''unknown'' ''unknown'' notes_md),
      \<lparr>patterns = sample_patterns, loaded_patterns = [''unknown'']\<rparr>)"
    using t2 h x g r l sample_discovery by blast
  from h 1 m 2 x sample_discovery g r 3 4 show ?thesis by blast
qed

section \<open>Properties of the session load tracker\<close>

text \<open>
  C6 (as stated): for every known pattern id and a fresh loaded set, the first
  \<open>load_pattern\<close> returns \<open>Successfully loaded\<close>. This fails for a known id that is not
  in normal form: \<open>discover_patterns\<close> stores a document under the name its header gives,
  here \<open>Deep_Agents\<close>, and \<open>load_pattern\<close> looks up the normalised name \<open>deep-agents\<close>,
  which is not a key, so that the first call returns \<open>not found\<close> and loads nothing.
\<close>

theorem load_known_id_counterexample:
  "discover_patterns named_fs = Inr named_patterns \<and>
   map_of named_patterns ''Deep_Agents'' \<noteq> None \<and>
   load_pattern named_fs \<lparr>patterns = named_patterns, loaded_patterns = []\<rparr> ''Deep_Agents'' =
     (Inr (Not_found ''Deep_Agents'' [''Deep_Agents'']),
      \<lparr>patterns = named_patterns, loaded_patterns = []\<rparr>)"
  by code_simp

text \<open>
  C6 (amended): for every identifier whose normalised form (lower case, underscores and
  spaces replaced by hyphens) is the id of a discovered pattern whose document can be
  read, and a fresh loaded set, the first \<open>load_pattern\<close> returns \<open>Successfully loaded\<close> and
  the loaded set becomes the one normalised identifier; a second \<open>load_pattern\<close> with the
  same identifier, whatever the file system then holds, returns \<open>already loaded\<close> and
  leaves the state as it is.
\<close>

theorem load_pattern_twice:
  assumes "map_of (patterns st) (normalize_name pattern_name) = Some info"
    and "read_text fs (path info) = Some content"
    and "loaded_patterns st = []"
  shows
    "load_pattern fs st pattern_name =
       (Inr (Successfully_loaded (title info) (category info) (complexity info)
               (body (parse_pattern_frontmatter content))),
        st\<lparr>loaded_patterns := [normalize_name pattern_name]\<rparr>) \<and>
     load_pattern fs' (st\<lparr>loaded_patterns := [normalize_name pattern_name]\<rparr>) pattern_name =
       (Inr (Already_loaded (title info)),
        st\<lparr>loaded_patterns := [normalize_name pattern_name]\<rparr>) \<and>
     get_loaded_patterns
       (snd (load_pattern fs' (snd (load_pattern fs st pattern_name)) pattern_name)) =
       [normalize_name pattern_name]"
proof -
  have 1: "load_pattern fs st pattern_name =
       (Inr (Successfully_loaded (title info) (category info) (complexity info)
               (body (parse_pattern_frontmatter content))),
        st\<lparr>loaded_patterns := [normalize_name pattern_name]\<rparr>)"
    using assms by (simp add: load_pattern_def Let_def)
  have 2: "load_pattern fs' (st\<lparr>loaded_patterns := [normalize_name pattern_name]\<rparr>) pattern_name =
       (Inr (Already_loaded (title info)),
        st\<lparr>loaded_patterns := [normalize_name pattern_name]\<rparr>)"
    using assms(1) by (simp add: load_pattern_def Let_def)
  show ?thesis unfolding 1 snd_conv 2 by (simp add: get_loaded_patterns_def)
qed

theorem load_pattern_twice_witness:
  "map_of (patterns fresh_state) (normalize_name ''Handoffs'') =
     Some \<lparr>name = ''handoffs'', title = ''Handoffs Pattern'',
            description = ''State machine with tool-driven transitions'',
            category = ''workflow'', complexity = ''medium'', path = ''knowledge/handoffs.md''\<rparr> \<and>
   read_text sample_fs ''knowledge/handoffs.md'' = Some handoffs_md \<and>
   loaded_patterns fresh_state = [] \<and>
   load_pattern sample_fs fresh_state ''Handoffs'' =
     (Inr (Successfully_loaded ''Handoffs Pattern'' ''workflow'' ''medium''
             (body (parse_pattern_frontmatter handoffs_md))),
      fresh_state\<lparr>loaded_patterns := [normalize_name ''Handoffs'']\<rparr>) \<and>
   load_pattern sample_fs (fresh_state\<lparr>loaded_patterns := [normalize_name ''Handoffs'']\<rparr>)
       ''Handoffs'' =
     (Inr (Already_loaded ''Handoffs Pattern''),
      fresh_state\<lparr>loaded_patterns := [normalize_name ''Handoffs'']\<rparr>)"
proof -
  let ?info = "\<lparr>name = ''handoffs'', title = ''Handoffs Pattern'',
            description = ''State machine with tool-driven transitions'',
            category = ''workflow'', complexity = ''medium'', path = ''knowledge/handoffs.md''\<rparr>"
  have a: "map_of (patterns fresh_state) (normalize_name ''Handoffs'') = Some ?info"
    by code_simp
  have b: "read_text sample_fs (path ?info) = Some handoffs_md" by code_simp
  have c: "loaded_patterns fresh_state = []" by (simp add: fresh_state_def)
  from load_pattern_twice[OF a b c, of sample_fs] a b c show ?thesis by simp
qed

lemma normalize_name_examples:
  "normalize_name ''Sub Agents'' = ''sub-agents''"
  "normalize_name ''sub_agents'' = ''sub-agents''"
  "normalize_name ''sub-agents'' = ''sub-agents''"
  by code_simp+

text \<open>
  C10: \<open>load_pattern\<close> lower-cases the identifier and replaces underscores and spaces by
  hyphens, but \<open>get_pattern_comparison\<close> strips, lower-cases and replaces underscores
  only. Evaluated on the sample knowledge directory: \<open>Deep Agents\<close> resolves to
  \<open>deep-agents\<close> when loaded, and is reported as the invalid pattern \<open>deep agents\<close> when
  compared.
\<close>

theorem comparison_keeps_spaces:
  "normalize_name ''Deep Agents'' = ''deep-agents'' \<and>
   loaded_patterns (snd (load_pattern sample_fs fresh_state ''Deep Agents'')) = [''deep-agents''] \<and>
   comparison_names ''Deep Agents,handoffs'' = [''deep agents'', ''handoffs''] \<and>
   get_pattern_comparison sample_fs fresh_state ''Deep Agents,handoffs'' =
     Inr (Invalid_patterns [''deep agents''] [''handoffs'', ''deep-agents'', ''unknown''])"
  by code_simp

section \<open>Properties of the comparison renderer\<close>

lemma split_on_not_Nil: "split_on sep s \<noteq> []"
  by (induction s) (auto split: list.splits)

lemma comparison_names_not_Nil: "comparison_names pattern_names \<noteq> []"
  by (simp add: comparison_names_def split_on_not_Nil)

lemma invalid_names_unknown:
  "invalid_names st names = filter (\<lambda>n. n \<notin> fst ` set (patterns st)) names"
  by (simp add: invalid_names_def map_of_eq_None_iff)

lemma get_pattern_comparison_invalid:
  "invalid_names st (comparison_names pattern_names) \<noteq> [] \<Longrightarrow>
   get_pattern_comparison fs st pattern_names =
     Inr (Invalid_patterns (invalid_names st (comparison_names pattern_names))
            (map fst (patterns st)))"
  by (simp add: get_pattern_comparison_def Let_def)

lemma get_pattern_comparison_few:
  "invalid_names st (comparison_names pattern_names) = [] \<Longrightarrow>
   length (comparison_names pattern_names) < 2 \<Longrightarrow>
   get_pattern_comparison fs st pattern_names = Inr At_least_2"
  by (simp add: get_pattern_comparison_def Let_def)

lemma get_pattern_comparison_many:
  "invalid_names st (comparison_names pattern_names) = [] \<Longrightarrow>
   length (comparison_names pattern_names) > 4 \<Longrightarrow>
   get_pattern_comparison fs st pattern_names = Inr At_most_4"
  by (simp add: get_pattern_comparison_def Let_def)

lemma get_pattern_comparison_success:
  "get_pattern_comparison fs st pattern_names = Inr (Pattern_comparison c) \<Longrightarrow>
   invalid_names st (comparison_names pattern_names) = [] \<and>
   2 \<le> length (comparison_names pattern_names) \<and> length (comparison_names pattern_names) \<le> 4"
  by (auto simp: get_pattern_comparison_def Let_def split: if_splits)

text \<open>
  C7 (as stated): a list of size 0, 1 or 5 and more gets an error identifying the
  cardinality violation. This fails when the list holds an unknown identifier, since the
  identifiers are validated first: the one-element list \<open>invalid1\<close> is answered with
  \<open>Invalid patterns\<close>, not with the request for at least 2 patterns; and the empty input
  is the one-element list of the empty identifier.
\<close>

theorem comparison_cardinality_counterexample:
  "comparison_names ''invalid1'' = [''invalid1''] \<and>
   get_pattern_comparison sample_fs fresh_state ''invalid1'' =
     Inr (Invalid_patterns [''invalid1''] [''handoffs'', ''deep-agents'', ''unknown'']) \<and>
   comparison_names '''' = [''''] \<and>
   get_pattern_comparison sample_fs fresh_state '''' =
     Inr (Invalid_patterns [''''] [''handoffs'', ''deep-agents'', ''unknown''])"
  by code_simp

text \<open>
  C7 (amended): the comma-separated input always yields at least one identifier. If any
  identifier is unknown, the result is the error \<open>Invalid patterns\<close> naming exactly the
  unknown identifiers, in their order, whatever the size of the list. If all
  identifiers are known and there are fewer than 2 or more than 4, the result is the error
  for that cardinality. A comparison is returned only for 2 to 4 known identifiers.
\<close>

theorem comparison_validation:
  "comparison_names pattern_names \<noteq> [] \<and>
   invalid_names st (comparison_names pattern_names) =
     filter (\<lambda>n. n \<notin> fst ` set (patterns st)) (comparison_names pattern_names) \<and>
   (invalid_names st (comparison_names pattern_names) \<noteq> [] \<longrightarrow>
      get_pattern_comparison fs st pattern_names =
        Inr (Invalid_patterns (invalid_names st (comparison_names pattern_names))
               (map fst (patterns st)))) \<and>
   (invalid_names st (comparison_names pattern_names) = [] \<and>
    length (comparison_names pattern_names) < 2 \<longrightarrow>
      get_pattern_comparison fs st pattern_names = Inr At_least_2) \<and>
   (invalid_names st (comparison_names pattern_names) = [] \<and>
    length (comparison_names pattern_names) > 4 \<longrightarrow>
      get_pattern_comparison fs st pattern_names = Inr At_most_4) \<and>
   (\<forall>c. get_pattern_comparison fs st pattern_names = Inr (Pattern_comparison c) \<longrightarrow>
      invalid_names st (comparison_names pattern_names) = [] \<and>
      2 \<le> length (comparison_names pattern_names) \<and>
      length (comparison_names pattern_names) \<le> 4)"
  using comparison_names_not_Nil[of pattern_names]
    invalid_names_unknown[of st "comparison_names pattern_names"]
    get_pattern_comparison_invalid[of st pattern_names fs]
    get_pattern_comparison_few[of st pattern_names fs]
    get_pattern_comparison_many[of st pattern_names fs]
    get_pattern_comparison_success[of fs st pattern_names]
  by blast

theorem comparison_validation_witness:
  "invalid_names fresh_state (comparison_names ''invalid1,invalid2'') = [''invalid1'', ''invalid2''] \<and>
   get_pattern_comparison sample_fs fresh_state ''invalid1,invalid2'' =
     Inr (Invalid_patterns [''invalid1'', ''invalid2''] (map fst (patterns fresh_state))) \<and>
   invalid_names fresh_state (comparison_names ''handoffs'') = [] \<and>
   length (comparison_names ''handoffs'') < 2 \<and>
   get_pattern_comparison sample_fs fresh_state ''handoffs'' = Inr At_least_2 \<and>
   invalid_names fresh_state (comparison_names ''handoffs,handoffs,handoffs,handoffs,handoffs'') = [] \<and>
   length (comparison_names ''handoffs,handoffs,handoffs,handoffs,handoffs'') > 4 \<and>
   get_pattern_comparison sample_fs fresh_state ''handoffs,handoffs,handoffs,handoffs,handoffs'' =
     Inr At_most_4"
proof -
  have a: "invalid_names fresh_state (comparison_names ''invalid1,invalid2'') =
             [''invalid1'', ''invalid2'']" by code_simp
  have b: "invalid_names fresh_state (comparison_names ''handoffs'') = []" by code_simp
  have c: "length (comparison_names ''handoffs'') < 2" by code_simp
  have d: "invalid_names fresh_state
             (comparison_names ''handoffs,handoffs,handoffs,handoffs,handoffs'') = []"
    by code_simp
  have e: "length (comparison_names ''handoffs,handoffs,handoffs,handoffs,handoffs'') > 4"
    by code_simp
  have a': "invalid_names fresh_state (comparison_names ''invalid1,invalid2'') \<noteq> []"
    unfolding a by simp
  from comparison_validation[of "''invalid1,invalid2''" fresh_state sample_fs] a'
  have 1: "get_pattern_comparison sample_fs fresh_state ''invalid1,invalid2'' =
     Inr (Invalid_patterns (invalid_names fresh_state (comparison_names ''invalid1,invalid2''))
            (map fst (patterns fresh_state)))"
    by blast
  from comparison_validation[of "''handoffs''" fresh_state sample_fs] b c
  have 2: "get_pattern_comparison sample_fs fresh_state ''handoffs'' = Inr At_least_2"
    by blast
  from comparison_validation[of "''handoffs,handoffs,handoffs,handoffs,handoffs''"
      fresh_state sample_fs] d e
  have 3: "get_pattern_comparison sample_fs fresh_state
             ''handoffs,handoffs,handoffs,handoffs,handoffs'' = Inr At_most_4"
    by blast
  from a 1 b c 2 d e 3 show ?thesis by simp
qed

section \<open>Properties of the skills load tracker\<close>

lemma tracker_invariant_reset: "tracker_invariant (reset_loaded_skills st)"
  by (simp add: tracker_invariant_def reset_loaded_skills_def)

lemma tracker_invariant_load:
  assumes "tracker_invariant st"
  shows "tracker_invariant (snd (load_skill fs st name_given))"
proof (cases "map_of (skills st) (normalize_name name_given)")
  case None
  then show ?thesis using assms by (simp add: load_skill_def Let_def)
next
  case (Some skill)
  then have "normalize_name name_given \<in> fst ` set (skills st)"
    by (metis map_of_eq_None_iff option.distinct(1))
  then show ?thesis
    using assms Some
    by (auto simp: load_skill_def Let_def tracker_invariant_def split: sum.splits)
qed

lemma tracker_invariant_unload:
  assumes "tracker_invariant st"
  shows "tracker_invariant (snd (unload_skill st name_given))"
  using assms
  by (auto simp: unload_skill_def Let_def tracker_invariant_def split: option.splits
      dest: notin_set_remove1)

lemma unload_skill_outcomes:
  assumes "tracker_invariant st"
  shows
    "(normalize_name name_given \<in> set (loaded_skills st) \<longrightarrow>
        (\<exists>skill. map_of (skills st) (normalize_name name_given) = Some skill \<and>
           unload_skill st name_given =
             (Inr (Has_been_unloaded (skill_name skill)),
              st\<lparr>loaded_skills := remove1 (normalize_name name_given) (loaded_skills st)\<rparr>)) \<and>
        normalize_name name_given \<notin> set (loaded_skills (snd (unload_skill st name_given))) \<and>
        set (loaded_skills (snd (unload_skill st name_given))) =
          set (loaded_skills st) - {normalize_name name_given}) \<and>
     (normalize_name name_given \<notin> set (loaded_skills st) \<longrightarrow>
        unload_skill st name_given = (Inr (Not_currently_loaded name_given), st))"
proof (intro conjI impI)
  assume l: "normalize_name name_given \<in> set (loaded_skills st)"
  let ?id = "normalize_name name_given"
  have d: "distinct (loaded_skills st)" using assms by (simp add: tracker_invariant_def)
  have "?id \<in> fst ` set (skills st)" using assms l by (auto simp: tracker_invariant_def)
  then obtain skill where s: "map_of (skills st) ?id = Some skill"
    by (metis map_of_eq_None_iff not_Some_eq)
  have u: "unload_skill st name_given =
             (Inr (Has_been_unloaded (skill_name skill)),
              st\<lparr>loaded_skills := remove1 ?id (loaded_skills st)\<rparr>)"
    using l s by (simp add: unload_skill_def Let_def)
  show "\<exists>skill. map_of (skills st) ?id = Some skill \<and>
           unload_skill st name_given =
             (Inr (Has_been_unloaded (skill_name skill)),
              st\<lparr>loaded_skills := remove1 ?id (loaded_skills st)\<rparr>)"
    using s u by blast
  show "?id \<notin> set (loaded_skills (snd (unload_skill st name_given)))"
    unfolding u using d by simp
  show "set (loaded_skills (snd (unload_skill st name_given))) = set (loaded_skills st) - {?id}"
    unfolding u using d by simp
next
  assume "normalize_name name_given \<notin> set (loaded_skills st)"
  then show "unload_skill st name_given = (Inr (Not_currently_loaded name_given), st)"
    by (simp add: unload_skill_def Let_def)
qed


lemma load_pattern_loaded:
  "loaded_patterns (snd (load_pattern fs st pattern_name)) = loaded_patterns st \<or>
   loaded_patterns (snd (load_pattern fs st pattern_name)) =
     loaded_patterns st @ [normalize_name pattern_name]"
  by (auto simp: load_pattern_def Let_def split: option.splits)

lemma tracker_step_loaded:
  "loaded_patterns (tracker_step fs call st) = [] \<or>
   prefix (loaded_patterns st) (loaded_patterns (tracker_step fs call st))"
proof (cases call)
  case (Load_pattern n)
  then show ?thesis using load_pattern_loaded[of fs st n] by auto
next
  case Get_loaded_patterns
  then show ?thesis by simp
next
  case Reset_loaded_patterns
  then show ?thesis by (simp add: reset_loaded_patterns_def)
qed

text \<open>
  C9 (as stated): the session load tracker provides an unload operation that removes one
  identifier from the loaded set. The tracker of the pattern selector has none: from the
  state in which \<open>handoffs\<close> and \<open>deep-agents\<close> are loaded, no call of the tracker, on any
  file system, leads to the state in which only \<open>deep-agents\<close> is loaded.
\<close>

theorem pattern_tracker_unload_counterexample:
  "\<forall>fs call. loaded_patterns (tracker_step fs call two_loaded) \<noteq> [''deep-agents'']"
proof (intro allI)
  fix fs call
  have l: "loaded_patterns two_loaded = [''handoffs'', ''deep-agents'']"
    by (simp add: two_loaded_def)
  from tracker_step_loaded[of fs call two_loaded]
  show "loaded_patterns (tracker_step fs call two_loaded) \<noteq> [''deep-agents'']"
    unfolding l by (auto simp: prefix_def)
qed

text \<open>
  C9 (amended): the loaded set of the pattern selector's tracker shrinks only by the full
  reset: after a call of that tracker the loaded list is empty or extends the list before
  the call. The unload operation of the repository is \<open>unload_skill\<close> of the skills
  tracker, which keeps its loaded set in the same way. In every state of the skills
  tracker in which no skill is loaded twice and every loaded skill is a discovered one,
  which \<open>load_skill\<close>, \<open>unload_skill\<close> and \<open>reset_loaded_skills\<close> maintain, and for every
  identifier: if the normalised identifier is loaded, \<open>unload_skill\<close> returns
  \<open>has been unloaded\<close> and the identifier is no longer in the loaded set, which is
  otherwise as before; if it is not loaded, \<open>unload_skill\<close> returns
  \<open>is not currently loaded\<close> and leaves the state as it is.
\<close>

theorem unload_only_in_skills_tracker:
  assumes "tracker_invariant sk"
  shows
    "(loaded_patterns (tracker_step fs call st) = [] \<or>
      prefix (loaded_patterns st) (loaded_patterns (tracker_step fs call st))) \<and>
     (normalize_name name_given \<in> set (loaded_skills sk) \<longrightarrow>
        (\<exists>skill. map_of (skills sk) (normalize_name name_given) = Some skill \<and>
           unload_skill sk name_given =
             (Inr (Has_been_unloaded (skill_name skill)),
              sk\<lparr>loaded_skills := remove1 (normalize_name name_given) (loaded_skills sk)\<rparr>)) \<and>
        normalize_name name_given \<notin> set (loaded_skills (snd (unload_skill sk name_given))) \<and>
        set (loaded_skills (snd (unload_skill sk name_given))) =
          set (loaded_skills sk) - {normalize_name name_given}) \<and>
     (normalize_name name_given \<notin> set (loaded_skills sk) \<longrightarrow>
        unload_skill sk name_given = (Inr (Not_currently_loaded name_given), sk)) \<and>
     tracker_invariant (snd (unload_skill sk name_given))"
  using tracker_step_loaded[of fs call st] unload_skill_outcomes[OF assms, of name_given]
    tracker_invariant_unload[OF assms, of name_given]
  by blast

theorem unload_only_in_skills_tracker_witness:
  "tracker_invariant sample_skills \<and>
   normalize_name ''Python_Expert'' \<in> set (loaded_skills sample_skills) \<and>
   unload_skill sample_skills ''Python_Expert'' =
     (Inr (Has_been_unloaded ''Python Expert''), sample_skills\<lparr>loaded_skills := []\<rparr>) \<and>
   normalize_name ''go-expert'' \<notin> set (loaded_skills sample_skills) \<and>
   unload_skill sample_skills ''go-expert'' = (Inr (Not_currently_loaded ''go-expert''), sample_skills)"
proof -
  have i: "tracker_invariant sample_skills" by code_simp
  have a: "normalize_name ''Python_Expert'' \<in> set (loaded_skills sample_skills)" by code_simp
  have b: "normalize_name ''go-expert'' \<notin> set (loaded_skills sample_skills)" by code_simp
  have m: "map_of (skills sample_skills) (normalize_name ''Python_Expert'') =
             Some \<lparr>skill_name = ''Python Expert'', skill_description = ''Python best practices'',
                   skill_path = ''skills/python-expert/SKILL.md''\<rparr>" by code_simp
  have r: "remove1 (normalize_name ''Python_Expert'') (loaded_skills sample_skills) = []"
    by code_simp
  from unload_only_in_skills_tracker[OF i, of _ _ _ "''Python_Expert''"] a m r
  have 1: "unload_skill sample_skills ''Python_Expert'' =
     (Inr (Has_been_unloaded ''Python Expert''), sample_skills\<lparr>loaded_skills := []\<rparr>)"
    by auto
  from unload_only_in_skills_tracker[OF i, of _ _ _ "''go-expert''"] b
  have 2: "unload_skill sample_skills ''go-expert'' =
             (Inr (Not_currently_loaded ''go-expert''), sample_skills)"
    by blast
  from i a 1 b 2 show ?thesis by blast
qed

end
